theory Spec2Isabelle
  imports Main "HOL-Library.Sublist"
begin

section \<open>The transform cache (packages/unplugin-typia/src/core/cache.ts)\<close>

subsection \<open>The file system and the process\<close>

text \<open>
  The cache talks to the file system through \<open>node:fs\<close> and \<open>Bun.file\<close>. The model keeps
  what these calls can observe: a path names a regular file with its text, a directory,
  or nothing; some paths refuse every mutation and fail \<open>access(W_OK)\<close>; the installed
  \<open>typia\<close> package either cannot be resolved or has a \<open>package.json\<close> with an optional
  \<open>version\<close>. Every call that reaches the file system is appended to \<open>trace\<close>.
\<close>

datatype node = File string | Dir

datatype fs_op =
    Mkdir string
  | Access string
  | Exists string
  | ReadFile string
  | WriteFile string
  | Rm string
  | ReadPkg

datatype pkg_lookup = PkgMissing | PkgJSON "string option"

datatype error =
    CacheDirNotWritable
  | TransformNotDefined
  | IncludeInvalid
  | ENOENT string
  | EISDIR string
  | EEXIST string
  | EACCES string
  | PkgNotFound
  | RegExpSyntax string
  | Thrown string

record world =
  nodes :: "string \<rightharpoonup> node"
  readonly :: "string set"
  typia_pkg :: pkg_lookup
  trace :: "fs_op list"

text \<open>The two module-level variables of cache.ts (lines 15-16).\<close>

record proc =
  cacheDir :: "string option"
  typiaVersion :: "string option"

type_synonym state = "proc \<times> world"

text \<open>
  What the functions below take from outside: the answer of \<open>isBun()\<close> (core/utils.js,
  not among the sources: which runtime this is), and from the runtime and the libraries
  \<open>node:crypto\<close> and \<open>pathe\<close> the functions \<open>Bun.hash(s).toString()\<close>,
  \<open>createHash('md5').update(s).digest('hex')\<close>, \<open>basename\<close>, \<open>dirname\<close> and \<open>join\<close>.
  They are parameters: nothing below depends on what they compute.
\<close>

record runtime =
  isBun :: bool
  bunHash :: "string \<Rightarrow> string"
  md5hex :: "string \<Rightarrow> string"
  basename :: "string \<Rightarrow> string"
  dirname :: "string \<Rightarrow> string"
  join :: "string \<Rightarrow> string \<Rightarrow> string"

text \<open>\<open>ResolvedOptions['cache']\<close>.\<close>

record cache_options =
  enable :: bool
  base :: string

definition log_op :: "fs_op \<Rightarrow> world \<Rightarrow> world" where
  "log_op ev w = w\<lparr>trace := trace w @ [ev]\<rparr>"

text \<open>\<open>mkdir(d, { recursive: true })\<close>: an existing directory is accepted as it is.\<close>

definition mkdir :: "string \<Rightarrow> world \<Rightarrow> (error + unit) \<times> world" where
  "mkdir d w =
     (let w1 = log_op (Mkdir d) w in
      case nodes w d of
        Some (File c) \<Rightarrow> (Inl (EEXIST d), w1)
      | Some Dir \<Rightarrow> (Inr (), w1)
      | None \<Rightarrow>
          if d \<in> readonly w then (Inl (EACCES d), w1)
          else (Inr (), w1\<lparr>nodes := (nodes w)(d \<mapsto> Dir)\<rparr>))"

text \<open>\<open>isWritable\<close> (lines 135-143): \<open>access\<close> rejects, the \<open>catch\<close> turns it into false.\<close>

definition isWritable :: "string \<Rightarrow> world \<Rightarrow> bool \<times> world" where
  "isWritable filename w =
     (nodes w filename \<noteq> None \<and> filename \<notin> readonly w, log_op (Access filename) w)"

text \<open>\<open>existsSync(path)\<close> is true of a directory too; \<open>Bun.file(path).exists()\<close> is not.\<close>

definition existsSync :: "string \<Rightarrow> world \<Rightarrow> bool \<times> world" where
  "existsSync path w = (nodes w path \<noteq> None, log_op (Exists path) w)"

definition bun_exists :: "string \<Rightarrow> world \<Rightarrow> bool \<times> world" where
  "bun_exists path w =
     ((case nodes w path of Some (File c) \<Rightarrow> True | _ \<Rightarrow> False), log_op (Exists path) w)"

text \<open>\<open>readFile(path, 'utf8')\<close> and \<open>Bun.file(path).text()\<close>.\<close>

definition readFile :: "string \<Rightarrow> world \<Rightarrow> (error + string) \<times> world" where
  "readFile path w =
     (let w1 = log_op (ReadFile path) w in
      case nodes w path of
        Some (File c) \<Rightarrow> (Inr c, w1)
      | Some Dir \<Rightarrow> (Inl (EISDIR path), w1)
      | None \<Rightarrow> (Inl (ENOENT path), w1))"

text \<open>\<open>writeFile(path, text)\<close>: the parent directory has to exist.\<close>

definition writeFile :: "runtime \<Rightarrow> string \<Rightarrow> string \<Rightarrow> world \<Rightarrow> (error + unit) \<times> world" where
  "writeFile rt path text w =
     (let w1 = log_op (WriteFile path) w in
      if nodes w path = Some Dir then (Inl (EISDIR path), w1)
      else if nodes w (dirname rt path) \<noteq> Some Dir then (Inl (ENOENT path), w1)
      else if path \<in> readonly w then (Inl (EACCES path), w1)
      else (Inr (), w1\<lparr>nodes := (nodes w)(path \<mapsto> File text)\<rparr>))"

text \<open>\<open>Bun.write(path, text, { createPath: true })\<close>: the parent directory is created.\<close>

definition bun_write :: "runtime \<Rightarrow> string \<Rightarrow> string \<Rightarrow> world \<Rightarrow> (error + unit) \<times> world" where
  "bun_write rt path text w =
     (let w1 = log_op (WriteFile path) w in
      if nodes w path = Some Dir then (Inl (EISDIR path), w1)
      else
        (case nodes w (dirname rt path) of
           Some (File c) \<Rightarrow> (Inl (ENOENT path), w1)
         | _ \<Rightarrow>
             if path \<in> readonly w then (Inl (EACCES path), w1)
             else (Inr (), w1\<lparr>nodes := (nodes w)(dirname rt path \<mapsto> Dir, path \<mapsto> File text)\<rparr>)))"

text \<open>\<open>rm(path)\<close> without \<open>force\<close> and without \<open>recursive\<close>.\<close>

definition rm :: "string \<Rightarrow> world \<Rightarrow> (error + unit) \<times> world" where
  "rm path w =
     (let w1 = log_op (Rm path) w in
      case nodes w path of
        None \<Rightarrow> (Inl (ENOENT path), w1)
      | Some Dir \<Rightarrow> (Inl (EISDIR path), w1)
      | Some (File c) \<Rightarrow>
          if path \<in> readonly w then (Inl (EACCES path), w1)
          else (Inr (), w1\<lparr>nodes := (nodes w)(path := None)\<rparr>))"

text \<open>\<open>readPackageJSON('typia').then(pkg => pkg.version)\<close>.\<close>

definition readPackageJSON :: "world \<Rightarrow> (error + string option) \<times> world" where
  "readPackageJSON w =
     (let w1 = log_op ReadPkg w in
      case typia_pkg w of
        PkgMissing \<Rightarrow> (Inl PkgNotFound, w1)
      | PkgJSON v \<Rightarrow> (Inr v, w1))"

subsection \<open>Keys, paths and the validity marker\<close>

text \<open>
  Modelled from the spec: \<open>wrap\<close> of core/types.js, which is not among the sources. It
  turns a plain string into one of the tagged string types (\<open>ID\<close>, \<open>Source\<close>, \<open>Data\<close>,
  \<open>CacheKey\<close>, \<open>CachePath\<close>), all of which the spec treats as plain text: the identity.
\<close>

definition wrap :: "'a \<Rightarrow> 'a" where
  [simp]: "wrap v = v"

text \<open>\<open>hash\<close> (lines 150-155).\<close>

definition hash :: "runtime \<Rightarrow> string \<Rightarrow> string" where
  "hash rt input = (if isBun rt then bunHash rt input else md5hex rt input)"

text \<open>\<open>getKey\<close> (lines 102-107).\<close>

definition getKey :: "runtime \<Rightarrow> string \<Rightarrow> string \<Rightarrow> string" where
  "getKey rt ident source =
     (let h = hash rt source;
          filebase = basename rt (dirname rt ident) @ ''_'' @ basename rt ident
      in wrap (filebase @ ''_'' @ h))"

text \<open>\<open>getCachePath\<close> (lines 114-119).\<close>

definition getCachePath :: "runtime \<Rightarrow> string \<Rightarrow> cache_options \<Rightarrow> string" where
  "getCachePath rt key option = wrap (join rt (base option) key)"

text \<open>The template literal of \<open>getHashComment\<close> (line 159), with \<open>typiaVersion ?? ''\<close>.\<close>

definition versionText :: "string option \<Rightarrow> string" where
  "versionText v = (case v of None \<Rightarrow> [] | Some s \<Rightarrow> s)"

definition hashComment :: "string option \<Rightarrow> string \<Rightarrow> string" where
  "hashComment v key = ''/* unplugin-typia-'' @ versionText v @ ''-'' @ key @ '' */''"

text \<open>
  \<open>getHashComment\<close> (lines 157-160): the package is read only while the memo is
  \<open>undefined\<close>, and a \<open>package.json\<close> without a version leaves it \<open>undefined\<close>.
\<close>

definition getHashComment :: "string \<Rightarrow> state \<Rightarrow> (error + string) \<times> state" where
  "getHashComment key s =
     (case s of (p, w) \<Rightarrow>
        (case typiaVersion p of
           Some v \<Rightarrow> (Inr (hashComment (Some v) key), (p, w))
         | None \<Rightarrow>
             (case readPackageJSON w of
                (Inl e, w1) \<Rightarrow> (Inl e, (p, w1))
              | (Inr v, w1) \<Rightarrow> (Inr (hashComment v key), (p\<lparr>typiaVersion := v\<rparr>, w1)))))"

text \<open>\<open>String.prototype.endsWith\<close>.\<close>

definition endsWith :: "string \<Rightarrow> string \<Rightarrow> bool" where
  "endsWith s t = (length t \<le> length s \<and> drop (length s - length t) s = t)"

subsection \<open>Directory preparation\<close>

text \<open>\<open>prepareCacheDir\<close> (lines 121-133).\<close>

definition prepareCacheDir :: "cache_options \<Rightarrow> state \<Rightarrow> (error + unit) \<times> state" where
  "prepareCacheDir option s =
     (case s of (p, w) \<Rightarrow>
        if cacheDir p \<noteq> None then (Inr (), (p, w))
        else
          (case mkdir (base option) w of
             (Inl e, w1) \<Rightarrow> (Inl e, (p, w1))
           | (Inr u, w1) \<Rightarrow>
               (case isWritable (base option) w1 of
                  (ok, w2) \<Rightarrow>
                    if \<not> ok then (Inl CacheDirNotWritable, (p, w2))
                    else (Inr (), (p\<lparr>cacheDir := Some (base option)\<rparr>, w2)))))"

subsection \<open>The facade\<close>

text \<open>The tail of \<open>getCache\<close> (lines 52-58), shared by both runtimes.\<close>

definition checkHashComment :: "string \<Rightarrow> string \<Rightarrow> state \<Rightarrow> (error + string option) \<times> state" where
  "checkHashComment key data s =
     (case getHashComment key s of
        (Inl e, s1) \<Rightarrow> (Inl e, s1)
      | (Inr hc, s1) \<Rightarrow>
          if endsWith data hc then (Inr (Some (wrap data)), s1) else (Inr None, s1))"

text \<open>\<open>getCache\<close> (lines 24-59). \<open>None\<close> is \<open>null\<close>.\<close>

definition getCache ::
  "runtime \<Rightarrow> string \<Rightarrow> string \<Rightarrow> cache_options \<Rightarrow> state \<Rightarrow> (error + string option) \<times> state" where
  "getCache rt ident source option s =
     (if \<not> enable option then (Inr None, s)
      else
        (case prepareCacheDir option s of
           (Inl e, s1) \<Rightarrow> (Inl e, s1)
         | (Inr u, (p1, w1)) \<Rightarrow>
             (let key = getKey rt ident source;
                  path = getCachePath rt key option
              in if isBun rt then
                   (case bun_exists path w1 of
                      (ex, w2) \<Rightarrow>
                        if \<not> ex then (Inr None, (p1, w2))
                        else
                          (case readFile path w2 of
                             (Inl e, w3) \<Rightarrow> (Inl e, (p1, w3))
                           | (Inr data, w3) \<Rightarrow> checkHashComment key data (p1, w3)))
                 else
                   (case existsSync path w1 of
                      (ex, w2) \<Rightarrow>
                        if \<not> ex then (Inr None, (p1, w2))
                        else
                          (case readFile path w2 of
                             (Inl e, w3) \<Rightarrow> (Inl e, (p1, w3))
                           | (Inr data, w3) \<Rightarrow> checkHashComment key data (p1, w3))))))"

text \<open>\<open>setCache\<close> (lines 68-95). The data is \<open>None\<close> for \<open>null\<close>.\<close>

definition setCache ::
  "runtime \<Rightarrow> string \<Rightarrow> string \<Rightarrow> string option \<Rightarrow> cache_options \<Rightarrow> state \<Rightarrow> (error + unit) \<times> state" where
  "setCache rt ident source data option s =
     (if \<not> enable option then (Inr (), s)
      else
        (case prepareCacheDir option s of
           (Inl e, s1) \<Rightarrow> (Inl e, s1)
         | (Inr u, s1) \<Rightarrow>
             (let key = getKey rt ident source;
                  path = getCachePath rt key option
              in case getHashComment key s1 of
                   (Inl e, s2) \<Rightarrow> (Inl e, s2)
                 | (Inr hc, (p2, w2)) \<Rightarrow>
                     (case data of
                        None \<Rightarrow>
                          (case rm path w2 of (r, w3) \<Rightarrow> (r, (p2, w3)))
                      | Some d \<Rightarrow>
                          (let cache = d @ hc
                           in if isBun rt then
                                (case bun_write rt path cache w2 of (r, w3) \<Rightarrow> (r, (p2, w3)))
                              else
                                (case writeFile rt path cache w2 of (r, w3) \<Rightarrow> (r, (p2, w3))))))))"

text \<open>A call that prepares the directory: \<open>mkdir\<close> or \<open>access\<close>.\<close>

fun is_prep :: "fs_op \<Rightarrow> bool" where
  "is_prep (Mkdir d) = True"
| "is_prep (Access d) = True"
| "is_prep ev = False"

section \<open>The Bun adapter (src/bun.ts)\<close>

subsection \<open>Values of the host language\<close>

text \<open>
  \<open>include\<close> and the result of the external transform are inspected at run time with
  \<open>instanceof\<close>, \<open>typeof\<close>, \<open>Array.isArray\<close> and \<open>== null\<close>, so they are values of any shape.
  An object is the list of its own properties.
\<close>

datatype regexp = RegExp string string

datatype jsval =
    JUndefined
  | JNull
  | JBool bool
  | JNum int
  | JStr string
  | JRegExp regexp
  | JArr "jsval list"
  | JObj "(string \<times> jsval) list"

text \<open>\<open>v == null\<close>.\<close>

fun nullish :: "jsval \<Rightarrow> bool" where
  "nullish JUndefined = True"
| "nullish JNull = True"
| "nullish v = False"

text \<open>\<open>typeof v === 'string'\<close> and \<open>typeof v === 'object'\<close>.\<close>

fun typeof_string :: "jsval \<Rightarrow> bool" where
  "typeof_string (JStr s) = True"
| "typeof_string v = False"

fun typeof_object :: "jsval \<Rightarrow> bool" where
  "typeof_object JNull = True"
| "typeof_object (JRegExp r) = True"
| "typeof_object (JArr xs) = True"
| "typeof_object (JObj fs) = True"
| "typeof_object v = False"

text \<open>\<open>result.code\<close> on a value whose \<open>typeof\<close> is \<open>'object'\<close>.\<close>

fun code_of :: "jsval \<Rightarrow> jsval" where
  "code_of (JObj fs) = (case map_of fs ''code'' of Some v \<Rightarrow> v | None \<Rightarrow> JUndefined)"
| "code_of v = JUndefined"

text \<open>\<open>v instanceof RegExp\<close>, and the patterns of a list.\<close>

fun instanceof_RegExp :: "jsval \<Rightarrow> bool" where
  "instanceof_RegExp (JRegExp r) = True"
| "instanceof_RegExp v = False"

fun regexps :: "jsval list \<Rightarrow> regexp list" where
  "regexps [] = []"
| "regexps (JRegExp r # vs) = r # regexps vs"
| "regexps (v # vs) = regexps vs"

subsection \<open>The transform hook\<close>

text \<open>
  \<open>unplugin.raw(options, meta)\<close> is built outside this file; the adapter reads its
  \<open>transform\<close> and \<open>buildStart\<close>, either of which may be missing. Both run against the
  file system and may throw.
\<close>

record unplugin_raw =
  transform :: "(string \<Rightarrow> string \<Rightarrow> world \<Rightarrow> (error + jsval) \<times> world) option"
  buildStart :: "(world \<Rightarrow> (error + unit) \<times> world) option"

text \<open>The \<open>switch (true)\<close> of \<open>taggedTransform\<close> (lines 47-56).\<close>

definition classify :: "jsval \<Rightarrow> jsval" where
  "classify result =
     (if nullish result then JUndefined
      else if typeof_string result then JUndefined
      else if typeof_object result then wrap (code_of result)
      else result)"

text \<open>\<open>taggedTransform\<close> (lines 31-57); the hook is called with \<open>(source, id)\<close>.\<close>

definition taggedTransform ::
  "string \<Rightarrow> string \<Rightarrow> unplugin_raw \<Rightarrow> world \<Rightarrow> (error + jsval) \<times> world" where
  "taggedTransform ident source unpluginRaw w =
     (case transform unpluginRaw of
        None \<Rightarrow> (Inl TransformNotDefined, w)
      | Some t \<Rightarrow>
          (case t source ident w of
             (Inl e, w1) \<Rightarrow> (Inl e, w1)
           | (Inr result, w1) \<Rightarrow> (Inr (classify result), w1)))"

text \<open>\<open>code ?? source\<close>.\<close>

definition contents :: "jsval \<Rightarrow> string \<Rightarrow> jsval" where
  "contents code source = (if nullish code then JStr source else code)"

text \<open>The \<open>onLoad\<close> callback of a user filter (lines 138-150).\<close>

definition loadTransformed :: "unplugin_raw \<Rightarrow> string \<Rightarrow> world \<Rightarrow> (error + jsval) \<times> world" where
  "loadTransformed unpluginRaw path w =
     (let ident = wrap path
      in case readFile ident w of
           (Inl e, w1) \<Rightarrow> (Inl e, w1)
         | (Inr text, w1) \<Rightarrow>
             (let source = wrap text
              in case taggedTransform ident source unpluginRaw w1 of
                   (Inl e, w2) \<Rightarrow> (Inl e, w2)
                 | (Inr code, w2) \<Rightarrow> (Inr (contents code source), w2)))"

subsection \<open>The typia runtime rewrite\<close>

text \<open>
  The filter \<open>/.+\/node_modules\/typia\/lib\/.*\.js$/\<close> (line 155) on a path of
  single-byte characters: some position starts the directory part, the character before
  it and every character between the directory part and the final \<open>.js\<close> is one that
  \<open>.\<close> matches, that is, no line terminator.
\<close>

definition dot_matches :: "char \<Rightarrow> bool" where
  "dot_matches c = (c \<noteq> CHR 0x0A \<and> c \<noteq> CHR 0x0D)"

definition typiaLibDir :: string where
  "typiaLibDir = ''/node_modules/typia/lib/''"

definition typiaLibJs_test :: "string \<Rightarrow> bool" where
  "typiaLibJs_test path =
     list_ex
       (\<lambda>i. 1 \<le> i \<and> dot_matches (path ! (i - 1))
            \<and> take (length typiaLibDir) (drop i path) = typiaLibDir
            \<and> i + length typiaLibDir + 3 \<le> length path
            \<and> list_all dot_matches
                 (take (length path - 3 - (i + length typiaLibDir)) (drop (i + length typiaLibDir) path))
            \<and> drop (length path - 3) path = ''.js'')
       [0..<length path]"

text \<open>The same pattern as the value handed to \<open>build.onLoad\<close>; \<open>CHR 0x5C\<close> is the backslash.\<close>

definition typiaLibJs :: regexp where
  "typiaLibJs =
     RegExp (''.+'' @ [CHR 0x5C] @ ''/node_modules'' @ [CHR 0x5C] @ ''/typia'' @ [CHR 0x5C]
             @ ''/lib'' @ [CHR 0x5C] @ ''/.*'' @ [CHR 0x5C] @ ''.js$'') []"

text \<open>\<open>path.replace(/\.js$/, '.mjs')\<close> (line 157).\<close>

definition replace_js_mjs :: "string \<Rightarrow> string" where
  "replace_js_mjs path =
     (if endsWith path ''.js'' then take (length path - 3) path @ ''.mjs'' else path)"

text \<open>The \<open>onLoad\<close> callback of the fixed filter (lines 155-160).\<close>

definition loadTypiaMjs :: "string \<Rightarrow> world \<Rightarrow> (error + jsval) \<times> world" where
  "loadTypiaMjs path w =
     (let mjsPath = replace_js_mjs path
      in case readFile mjsPath w of
           (Inl e, w1) \<Rightarrow> (Inl e, w1)
         | (Inr text, w1) \<Rightarrow> (Inr (JStr text), w1))"

subsection \<open>Setup\<close>

text \<open>
  The filter list (lines 119-130). \<open>new RegExp(s)\<close> throws a \<open>SyntaxError\<close> on a string
  the engine does not accept as a pattern; which strings it accepts is the parameter
  \<open>compiles\<close>.
\<close>

definition filters :: "(string \<Rightarrow> bool) \<Rightarrow> jsval \<Rightarrow> error + regexp list" where
  "filters compiles incl =
     (case incl of
        JRegExp r \<Rightarrow> Inr [r]
      | JStr s \<Rightarrow> if compiles s then Inr [RegExp s []] else Inl (RegExpSyntax s)
      | JArr vs \<Rightarrow>
          if list_all instanceof_RegExp vs \<and> length vs > 0 then Inr (regexps vs)
          else Inl IncludeInvalid
      | _ \<Rightarrow> Inl IncludeInvalid)"

text \<open>
  What the \<open>setup\<close> method of the plugin is given: \<open>forceImportTypiaMjs\<close> as written by the user, the \<open>include\<close>
  of the resolved options (\<open>resolveOptions\<close> is not part of this file) and the raw plugin.
\<close>

record bun_options =
  forceImportTypiaMjs :: "bool option"
  include' :: jsval

datatype loader = TransformLoader | TypiaMjsLoader

text \<open>The method \<open>setup\<close> (lines 112-162): the list of \<open>build.onLoad\<close> registrations, in order.\<close>

definition plugin_setup ::
  "(string \<Rightarrow> bool) \<Rightarrow> bun_options \<Rightarrow> unplugin_raw \<Rightarrow> world
     \<Rightarrow> (error + (regexp \<times> loader) list) \<times> world" where
  "plugin_setup compiles bunOptions unpluginRaw w =
     (let force = (case forceImportTypiaMjs bunOptions of None \<Rightarrow> True | Some b \<Rightarrow> b)
      in case filters compiles (include' bunOptions) of
           Inl e \<Rightarrow> (Inl e, w)
         | Inr fs \<Rightarrow>
             (case (case buildStart unpluginRaw of None \<Rightarrow> (Inr (), w) | Some start \<Rightarrow> start w) of
                (Inl e, w1) \<Rightarrow> (Inl e, w1)
              | (Inr u, w1) \<Rightarrow>
                  (Inr (map (\<lambda>f. (f, TransformLoader)) fs
                        @ (if force then [(typiaLibJs, TypiaMjsLoader)] else [])), w1)))"

text \<open>The callback behind a registration.\<close>

fun run_loader :: "loader \<Rightarrow> unplugin_raw \<Rightarrow> string \<Rightarrow> world \<Rightarrow> (error + jsval) \<times> world" where
  "run_loader TransformLoader unpluginRaw path w = loadTransformed unpluginRaw path w"
| "run_loader TypiaMjsLoader unpluginRaw path w = loadTypiaMjs path w"

section \<open>Concrete inputs\<close>

text \<open>
  A Node runtime for the examples below: the MD5 digests of \<open>a\<close> and of the empty
  string, and \<open>pathe\<close> on absolute paths in normal form.
\<close>

definition md5_table :: "string \<Rightarrow> string" where
  "md5_table s =
     (if s = ''a'' then ''0cc175b9c0f1b6a831c399e269772661''
      else ''d41d8cd98f00b204e9800998ecf8427e'')"

definition last_segment :: "string \<Rightarrow> string" where
  "last_segment p = rev (takeWhile (\<lambda>c. c \<noteq> CHR ''/'') (rev p))"

definition parent_path :: "string \<Rightarrow> string" where
  "parent_path p = rev (drop 1 (dropWhile (\<lambda>c. c \<noteq> CHR ''/'') (rev p)))"

definition node_rt :: runtime where
  "node_rt =
     \<lparr>isBun = False, bunHash = (\<lambda>s. ''0''), md5hex = md5_table,
      basename = last_segment, dirname = parent_path, join = (\<lambda>a b. a @ ''/'' @ b)\<rparr>"

definition fresh_proc :: proc where
  "fresh_proc = \<lparr>cacheDir = None, typiaVersion = None\<rparr>"

definition disk :: "string \<Rightarrow> world" where
  "disk v = \<lparr>nodes = Map.empty, readonly = {}, typia_pkg = PkgJSON (Some v), trace = []\<rparr>"

definition tmp_cache :: cache_options where
  "tmp_cache = \<lparr>enable = True, base = ''/tmp/c''\<rparr>"

definition cached_disk :: world where
  "cached_disk =
     (disk ''6.0.0'')\<lparr>nodes :=
        [''/tmp/c'' \<mapsto> Dir,
         ''/tmp/c/app_main.ts_0cc175b9c0f1b6a831c399e269772661''
           \<mapsto> File ''x/* unplugin-typia-6.0.0-app_main.ts_0cc175b9c0f1b6a831c399e269772661 */'']\<rparr>"

definition other_cache :: cache_options where
  "other_cache = \<lparr>enable = True, base = ''/other''\<rparr>"

text \<open>
  Three transform hooks (the object of the end-to-end example, \<open>null\<close>, a plain string), a
  project on disk, a user pattern, and an engine that rejects the pattern \<open>(\<close>.
\<close>

definition replace_code :: unplugin_raw where
  "replace_code =
     \<lparr>transform = Some (\<lambda>source ident w. (Inr (JObj [(''code'', JStr ''const x = 2'')]), w)),
      buildStart = None\<rparr>"

definition return_null :: unplugin_raw where
  "return_null = \<lparr>transform = Some (\<lambda>source ident w. (Inr JNull, w)), buildStart = None\<rparr>"

definition return_string :: unplugin_raw where
  "return_string =
     \<lparr>transform = Some (\<lambda>source ident w. (Inr (JStr ''const x = 2''), w)), buildStart = None\<rparr>"

definition project :: world where
  "project =
     \<lparr>nodes = [''/src/app/main.ts'' \<mapsto> File ''const x = 1'',
               ''/app/node_modules/typia/lib/index.mjs'' \<mapsto> File ''export {}''],
      readonly = {}, typia_pkg = PkgJSON (Some ''6.0.0''), trace = []\<rparr>"

definition ts_files :: regexp where
  "ts_files = RegExp (CHR 0x5C # ''.ts$'') []"

definition accepts :: "string \<Rightarrow> bool" where
  "accepts s = (s \<noteq> ''('')"

section \<open>Properties of the cache\<close>

subsection \<open>Auxiliary facts\<close>

lemmas cache_defs =
  getCache_def setCache_def prepareCacheDir_def mkdir_def isWritable_def log_op_def
  getKey_def getCachePath_def hash_def getHashComment_def readPackageJSON_def
  hashComment_def versionText_def writeFile_def bun_write_def existsSync_def bun_exists_def
  readFile_def rm_def checkHashComment_def endsWith_def Let_def

lemmas demo_defs =
  node_rt_def md5_table_def last_segment_def parent_path_def fresh_proc_def disk_def tmp_cache_def

lemma endsWith_iff: "endsWith s t \<longleftrightarrow> (\<exists>z. s = z @ t)"
  unfolding endsWith_def
  by (metis append_eq_conv_conj append_take_drop_id diff_add_inverse2 length_append length_drop le_add2)

lemma endsWith_append [simp]: "endsWith (d @ t) t"
  by (simp add: endsWith_def)

lemma prepareCacheDir_prepared:
  "cacheDir p \<noteq> None \<Longrightarrow> prepareCacheDir option (p, w) = (Inr (), (p, w))"
  by (simp add: prepareCacheDir_def)

lemma prepareCacheDir_Inr:
  assumes "prepareCacheDir option (p, w) = (Inr u, (p1, w1))"
  shows "cacheDir p1 \<noteq> None" "typiaVersion p1 = typiaVersion p" "typia_pkg w1 = typia_pkg w"
    "readonly w1 = readonly w"
    "nodes w x = Some (File c) \<Longrightarrow> nodes w1 x = Some (File c)"
    "nodes w1 x = None \<Longrightarrow> nodes w x = None"
    "cacheDir p = None \<Longrightarrow> cacheDir p1 = Some (base option)"
    "cacheDir p \<noteq> None \<Longrightarrow> p1 = p \<and> w1 = w"
  using assms
  by (auto simp: prepareCacheDir_def mkdir_def isWritable_def log_op_def Let_def
           split: if_splits option.splits node.splits prod.splits sum.splits)

lemma getHashComment_Inr:
  assumes "getHashComment key (p, w) = (Inr hc, (p2, w2))"
  shows "hc = hashComment (typiaVersion p2) key" "cacheDir p2 = cacheDir p" "nodes w2 = nodes w"
    "readonly w2 = readonly w" "typia_pkg w2 = typia_pkg w"
    "typiaVersion p2 = None \<Longrightarrow> typia_pkg w = PkgJSON None"
    "typiaVersion p \<noteq> None \<Longrightarrow> p2 = p \<and> w2 = w"
  using assms
  by (auto simp: getHashComment_def readPackageJSON_def log_op_def Let_def
           split: option.splits pkg_lookup.splits prod.splits sum.splits)

lemma getHashComment_again:
  assumes "typiaVersion p = None \<Longrightarrow> typia_pkg w = PkgJSON None"
  shows "\<exists>w'. getHashComment key (p, w) = (Inr (hashComment (typiaVersion p) key), (p, w'))
           \<and> nodes w' = nodes w"
  using assms
  by (cases "typiaVersion p")
     (auto simp: getHashComment_def readPackageJSON_def log_op_def Let_def)

lemma prepareCacheDir_File_back:
  assumes "prepareCacheDir option (p, w) = (Inr u, (p1, w1))" "nodes w1 x = Some (File c)"
  shows "nodes w x = Some (File c)"
  using assms
  by (auto simp: prepareCacheDir_def mkdir_def isWritable_def log_op_def Let_def
           split: if_splits option.splits node.splits prod.splits sum.splits)

lemma readFile_Inr:
  "readFile path w = (Inr c, w') \<Longrightarrow> nodes w path = Some (File c) \<and> w' = log_op (ReadFile path) w"
  by (auto simp: readFile_def Let_def split: option.splits node.splits)

lemma nodes_log_op [simp]: "nodes (log_op ev w) = nodes w"
  by (simp add: log_op_def)

lemma checkHashComment_Some:
  assumes "checkHashComment key data (p, w) = (Inr (Some d), (p', w'))"
  shows "d = data \<and> endsWith d (hashComment (typiaVersion p') key)"
proof -
  obtain r s1 where g: "getHashComment key (p, w) = (r, s1)" by (cases "getHashComment key (p, w)")
  with assms obtain hc where r: "r = Inr hc" by (cases r) (auto simp: checkHashComment_def)
  with assms g have "d = data" "endsWith data hc" "s1 = (p', w')"
    by (auto simp: checkHashComment_def split: if_splits)
  with g r getHashComment_Inr(1)[of key p w hc p' w'] show ?thesis by simp
qed

lemma write_Inr:
  assumes "(if isBun rt then bun_write rt path c w else writeFile rt path c w) = (Inr u, w3)"
  shows "nodes w3 path = Some (File c)" "typia_pkg w3 = typia_pkg w" "readonly w3 = readonly w"
    "trace w3 = trace w @ [WriteFile path]"
  using assms
  by (auto simp: bun_write_def writeFile_def log_op_def Let_def
           split: if_splits option.splits node.splits)

lemma setCache_Some_Inr:
  assumes "enable option" "setCache rt ident source (Some d) option (p, w) = (Inr u, (p2, w3))"
  shows "cacheDir p2 \<noteq> None"
    "nodes w3 (getCachePath rt (getKey rt ident source) option)
       = Some (File (d @ hashComment (typiaVersion p2) (getKey rt ident source)))"
    "typiaVersion p2 = None \<Longrightarrow> typia_pkg w3 = PkgJSON None"
proof -
  let ?key = "getKey rt ident source"
  let ?path = "getCachePath rt ?key option"
  obtain r1 p1 w1 where prep: "prepareCacheDir option (p, w) = (r1, (p1, w1))"
    by (metis prod.exhaust)
  with assms have r1: "r1 = Inr ()" by (cases r1) (auto simp: setCache_def)
  obtain r2 pa wa where hc: "getHashComment ?key (p1, w1) = (r2, (pa, wa))"
    by (metis prod.exhaust)
  with assms prep r1 obtain c where r2: "r2 = Inr c"
    by (cases r2) (auto simp: setCache_def Let_def)
  from assms prep r1 hc r2 have pa: "pa = p2"
    and wr: "(if isBun rt then bun_write rt ?path (d @ c) wa else writeFile rt ?path (d @ c) wa)
               = (Inr u, w3)"
    by (auto simp: setCache_def Let_def split: if_splits prod.splits)
  note H = getHashComment_Inr[OF hc[unfolded r2]]
  note P = prepareCacheDir_Inr[OF prep[unfolded r1]]
  note W = write_Inr[OF wr]
  show "cacheDir p2 \<noteq> None" using H(2) P(1) pa by simp
  show "nodes w3 ?path = Some (File (d @ hashComment (typiaVersion p2) ?key))"
    using W(1) H(1) pa by simp
  show "typia_pkg w3 = PkgJSON None" if "typiaVersion p2 = None"
    using that W(2) H(5,6) pa by simp
qed

lemma getCache_prepared_File:
  assumes "enable option" "cacheDir p \<noteq> None"
    "nodes w (getCachePath rt (getKey rt ident source) option) = Some (File c)"
  shows "getCache rt ident source option (p, w)
         = checkHashComment (getKey rt ident source) c
             (p, log_op (ReadFile (getCachePath rt (getKey rt ident source) option))
                   (log_op (Exists (getCachePath rt (getKey rt ident source) option)) w))"
  using assms
  by (simp add: getCache_def prepareCacheDir_prepared Let_def bun_exists_def existsSync_def
        readFile_def)

lemma after_last_slash:
  assumes "CHR ''/'' \<notin> set v"
  shows "takeWhile (\<lambda>c. c \<noteq> CHR ''/'') (rev (d @ ''/* unplugin-typia-'' @ v))
         = rev v @ rev ''* unplugin-typia-''"
proof -
  have "rev (d @ ''/* unplugin-typia-'' @ v) = (rev v @ rev ''* unplugin-typia-'') @ CHR ''/'' # rev d"
    by simp
  moreover have "\<forall>c \<in> set (rev v @ rev ''* unplugin-typia-''). c \<noteq> CHR ''/''"
    using assms by auto
  ultimately show ?thesis
    by (simp only: takeWhile_append2 takeWhile.simps simp_thms if_False append_Nil2)
qed

lemma marker_suffix_same_version:
  assumes "d @ hashComment a key = z @ hashComment b key"
    and "CHR ''/'' \<notin> set (versionText a)" "CHR ''/'' \<notin> set (versionText b)"
  shows "versionText a = versionText b"
proof -
  from assms(1) have "(d @ ''/* unplugin-typia-'' @ versionText a) @ (''-'' @ key @ '' */'')
      = (z @ ''/* unplugin-typia-'' @ versionText b) @ (''-'' @ key @ '' */'')"
    by (simp add: hashComment_def)
  then have "d @ ''/* unplugin-typia-'' @ versionText a = z @ ''/* unplugin-typia-'' @ versionText b"
    by (simp only: append_same_eq)
  then have "takeWhile (\<lambda>c. c \<noteq> CHR ''/'') (rev (d @ ''/* unplugin-typia-'' @ versionText a))
           = takeWhile (\<lambda>c. c \<noteq> CHR ''/'') (rev (z @ ''/* unplugin-typia-'' @ versionText b))"
    by simp
  then show ?thesis
    by (simp only: after_last_slash[OF assms(2)] after_last_slash[OF assms(3)] append_same_eq rev_is_rev_conv)
qed

lemma prepareCacheDir_other:
  assumes "prepareCacheDir option (p, w) = (Inr u, (p1, w1))" "x \<noteq> base option"
  shows "nodes w1 x = nodes w x"
  using assms
  by (auto simp: prepareCacheDir_def mkdir_def isWritable_def log_op_def Let_def
           split: if_splits option.splits node.splits prod.splits sum.splits)

lemma getCache_prepared_absent:
  assumes "enable option" "cacheDir p \<noteq> None"
    "nodes w (getCachePath rt (getKey rt ident source) option) = None"
  shows "getCache rt ident source option (p, w)
         = (Inr None, (p, log_op (Exists (getCachePath rt (getKey rt ident source) option)) w))"
  using assms
  by (simp add: getCache_def prepareCacheDir_prepared Let_def bun_exists_def existsSync_def)

lemma getHashComment_frame:
  assumes "getHashComment key (p, w) = (r, (p', w'))"
  shows "cacheDir p' = cacheDir p" "nodes w' = nodes w"
    "trace w' = trace w \<or> trace w' = trace w @ [ReadPkg]"
    "r = Inl e \<Longrightarrow> e = PkgNotFound"
  using assms
  by (auto simp: getHashComment_def readPackageJSON_def log_op_def Let_def
           split: option.splits pkg_lookup.splits prod.splits sum.splits)

lemma checkHashComment_frame:
  assumes "checkHashComment key data (p, w) = (r, (p', w'))"
  shows "cacheDir p' = cacheDir p" "nodes w' = nodes w"
    "trace w' = trace w \<or> trace w' = trace w @ [ReadPkg]"
proof -
  obtain r0 p0 w0 where g: "getHashComment key (p, w) = (r0, (p0, w0))" by (metis prod.exhaust)
  with assms have "p' = p0" "w' = w0"
    by (auto simp: checkHashComment_def split: sum.splits if_splits)
  with getHashComment_frame[OF g] show "cacheDir p' = cacheDir p" "nodes w' = nodes w"
    "trace w' = trace w \<or> trace w' = trace w @ [ReadPkg]" by simp_all
qed

lemma getCache_prepared_frame:
  assumes "enable option" "cacheDir p \<noteq> None"
  shows "\<exists>r p' w' evs. getCache rt ident source option (p, w) = (r, (p', w'))
           \<and> cacheDir p' = cacheDir p
           \<and> trace w' = trace w @ Exists (getCachePath rt (getKey rt ident source) option) # evs
           \<and> (\<forall>e \<in> set evs. \<not> is_prep e)
           \<and> nodes w' = nodes w"
proof -
  let ?path = "getCachePath rt (getKey rt ident source) option"
  let ?w2 = "log_op (Exists ?path) w"
  show ?thesis
  proof (cases "nodes w ?path")
    case None
    with assms show ?thesis
      by (simp add: getCache_def prepareCacheDir_prepared Let_def bun_exists_def existsSync_def log_op_def)
  next
    case (Some n)
    show ?thesis
    proof (cases n)
      case Dir
      with Some assms show ?thesis
        by (simp add: getCache_def prepareCacheDir_prepared Let_def bun_exists_def existsSync_def
              readFile_def log_op_def)
    next
      case (File c)
      let ?w3 = "log_op (ReadFile ?path) ?w2"
      obtain r p' w' where c: "checkHashComment (getKey rt ident source) c (p, ?w3) = (r, (p', w'))"
        by (metis prod.exhaust)
      from checkHashComment_frame[OF c] have
        "cacheDir p' = cacheDir p" "nodes w' = nodes w"
        "trace w' = trace w @ Exists ?path # [ReadFile ?path]
         \<or> trace w' = trace w @ Exists ?path # [ReadFile ?path, ReadPkg]"
        by (auto simp: log_op_def)
      then have "cacheDir p' = cacheDir p \<and> nodes w' = nodes w
         \<and> (\<exists>evs. trace w' = trace w @ Exists ?path # evs \<and> (\<forall>e \<in> set evs. \<not> is_prep e))"
        by auto
      with getCache_prepared_File[OF assms Some[unfolded File]] c show ?thesis
        by auto
    qed
  qed
qed

lemma store_frame:
  assumes "(case data of
              None \<Rightarrow> rm path w
            | Some d \<Rightarrow> if isBun rt then bun_write rt path (d @ hc) w
                        else writeFile rt path (d @ hc) w) = (r, w')"
  shows "trace w' = trace w @ [case data of None \<Rightarrow> Rm path | Some t \<Rightarrow> WriteFile path]"
    "x \<noteq> path \<Longrightarrow> (isBun rt \<Longrightarrow> x \<noteq> dirname rt path) \<Longrightarrow> nodes w' x = nodes w x"
  using assms
  by (auto simp: rm_def bun_write_def writeFile_def log_op_def Let_def
           split: option.splits node.splits if_splits)

lemma setCache_after_prepare:
  assumes "enable option" "prepareCacheDir option s = (Inr (), s1)"
  shows "setCache rt ident source data option s
         = (case getHashComment (getKey rt ident source) s1 of
              (Inl e, s2) \<Rightarrow> (Inl e, s2)
            | (Inr hc, (p2, w2)) \<Rightarrow>
                (case (case data of
                         None \<Rightarrow> rm (getCachePath rt (getKey rt ident source) option) w2
                       | Some d \<Rightarrow>
                           if isBun rt
                           then bun_write rt (getCachePath rt (getKey rt ident source) option) (d @ hc) w2
                           else writeFile rt (getCachePath rt (getKey rt ident source) option) (d @ hc) w2)
                 of (r, w3) \<Rightarrow> (r, (p2, w3))))"
  using assms
  by (auto simp: setCache_def Let_def split: sum.splits prod.splits option.splits)

lemma setCache_prepared_frame:
  assumes "enable option" "cacheDir p \<noteq> None"
    and res: "setCache rt ident source data option (p, w) = (r, (p', w'))"
  shows "cacheDir p' = cacheDir p"
    "\<exists>evs. trace w' = trace w @ evs
           \<and> (\<forall>e \<in> set evs. \<not> is_prep e)
           \<and> (r \<noteq> Inl PkgNotFound \<longrightarrow>
                last evs = (case data of
                              None \<Rightarrow> Rm (getCachePath rt (getKey rt ident source) option)
                            | Some t \<Rightarrow> WriteFile (getCachePath rt (getKey rt ident source) option)))"
    "x \<noteq> getCachePath rt (getKey rt ident source) option
       \<Longrightarrow> (isBun rt \<Longrightarrow> x \<noteq> dirname rt (getCachePath rt (getKey rt ident source) option))
       \<Longrightarrow> nodes w' x = nodes w x"
proof -
  let ?key = "getKey rt ident source"
  let ?path = "getCachePath rt ?key option"
  let ?op = "case data of None \<Rightarrow> Rm ?path | Some t \<Rightarrow> WriteFile ?path"
  note sc = setCache_after_prepare[OF assms(1) prepareCacheDir_prepared[OF assms(2)],
      of rt ident source data w]
  obtain r2 p2 w2 where g: "getHashComment ?key (p, w) = (r2, (p2, w2))" by (metis prod.exhaust)
  note F = getHashComment_frame[OF g]
  have np: "\<not> is_prep ?op" by (cases data) simp_all
  have "cacheDir p' = cacheDir p
    \<and> (\<exists>evs. trace w' = trace w @ evs \<and> (\<forall>e \<in> set evs. \<not> is_prep e)
           \<and> (r \<noteq> Inl PkgNotFound \<longrightarrow> last evs = ?op))
    \<and> ((x \<noteq> ?path \<and> (isBun rt \<longrightarrow> x \<noteq> dirname rt ?path)) \<longrightarrow> nodes w' x = nodes w x)"
  proof (cases r2)
    case (Inl e)
    with F(4) have e: "e = PkgNotFound" by simp
    from res sc g Inl e have eq: "r = Inl PkgNotFound" "p' = p2" "w' = w2" by simp_all
    from F(3) have "\<exists>evs. trace w2 = trace w @ evs \<and> (\<forall>e \<in> set evs. \<not> is_prep e)"
    proof
      assume "trace w2 = trace w"
      then have "trace w2 = trace w @ [] \<and> (\<forall>e \<in> set []. \<not> is_prep e)" by simp
      then show ?thesis by (rule exI)
    next
      assume "trace w2 = trace w @ [ReadPkg]"
      then have "trace w2 = trace w @ [ReadPkg] \<and> (\<forall>e \<in> set [ReadPkg]. \<not> is_prep e)" by simp
      then show ?thesis by (rule exI)
    qed
    with eq F(1,2) show ?thesis by simp
  next
    case (Inr hc)
    let ?store = "case data of None \<Rightarrow> rm ?path w2
        | Some d \<Rightarrow> if isBun rt then bun_write rt ?path (d @ hc) w2
                    else writeFile rt ?path (d @ hc) w2"
    obtain r3 w3 where st: "?store = (r3, w3)" by (cases ?store)
    note S = store_frame[OF st]
    from res sc g Inr st have eq: "r = r3" "p' = p2" "w' = w3" by simp_all
    from F(3) have "\<exists>evs. trace w3 = trace w @ evs \<and> (\<forall>e \<in> set evs. \<not> is_prep e) \<and> last evs = ?op"
    proof
      assume "trace w2 = trace w"
      with S(1) np have "trace w3 = trace w @ [?op] \<and> (\<forall>e \<in> set [?op]. \<not> is_prep e) \<and> last [?op] = ?op"
        by simp
      then show ?thesis by (rule exI)
    next
      assume "trace w2 = trace w @ [ReadPkg]"
      with S(1) np have "trace w3 = trace w @ [ReadPkg, ?op]
         \<and> (\<forall>e \<in> set [ReadPkg, ?op]. \<not> is_prep e) \<and> last [ReadPkg, ?op] = ?op"
        by simp
      then show ?thesis by (rule exI)
    qed
    moreover have "(x \<noteq> ?path \<and> (isBun rt \<longrightarrow> x \<noteq> dirname rt ?path)) \<longrightarrow> nodes w3 x = nodes w x"
      using S(2)[of x] F(2) by auto
    ultimately show ?thesis using eq F(1) by blast
  qed
  then show "cacheDir p' = cacheDir p"
    "\<exists>evs. trace w' = trace w @ evs \<and> (\<forall>e \<in> set evs. \<not> is_prep e)
           \<and> (r \<noteq> Inl PkgNotFound \<longrightarrow> last evs = ?op)"
    "x \<noteq> ?path \<Longrightarrow> (isBun rt \<Longrightarrow> x \<noteq> dirname rt ?path) \<Longrightarrow> nodes w' x = nodes w x"
    by blast+
qed

lemma getCache_first_cacheDir:
  assumes "enable option" "cacheDir p = None"
    "getCache rt ident source option (p, w) = (Inr r, (p1, w1))"
  shows "cacheDir p1 = Some (base option)"
proof -
  obtain r0 pa wa where prep: "prepareCacheDir option (p, w) = (r0, (pa, wa))"
    by (metis prod.exhaust)
  with assms have r0: "r0 = Inr ()" by (cases r0) (auto simp: getCache_def)
  from prepareCacheDir_Inr(7)[OF prep[unfolded r0] assms(2)] have pa: "cacheDir pa = Some (base option)" .
  from assms(1,3) prep r0 have
    "p1 = pa \<or> (\<exists>data w3. checkHashComment (getKey rt ident source) data (pa, w3) = (Inr r, (p1, w1)))"
    by (auto simp: getCache_def Let_def bun_exists_def existsSync_def
             split: if_splits sum.splits prod.splits)
  with pa show ?thesis by (auto dest: checkHashComment_frame(1))
qed

lemma setCache_first_cacheDir:
  assumes "enable option" "cacheDir p = None"
    "setCache rt ident source data option (p, w) = (Inr u, (p1, w1))"
  shows "cacheDir p1 = Some (base option)"
proof -
  obtain r0 pa wa where prep: "prepareCacheDir option (p, w) = (r0, (pa, wa))"
    by (metis prod.exhaust)
  with assms have r0: "r0 = Inr ()" by (cases r0) (auto simp: setCache_def)
  from prepareCacheDir_Inr(7)[OF prep[unfolded r0] assms(2)] have pa: "cacheDir pa = Some (base option)" .
  obtain r2 p2 w2 where g: "getHashComment (getKey rt ident source) (pa, wa) = (r2, (p2, w2))"
    by (metis prod.exhaust)
  from assms(3) setCache_after_prepare[OF assms(1) prep[unfolded r0], of rt ident source data] g
  have "p1 = p2" by (auto split: sum.splits prod.splits)
  with getHashComment_frame(1)[OF g] pa show ?thesis by simp
qed

lemma underscore_split:
  assumes "CHR ''_'' \<notin> set a" "CHR ''_'' \<notin> set a'" "a @ ''_'' @ b = a' @ ''_'' @ b'"
  shows "a = a' \<and> b = b'"
proof -
  have "takeWhile (\<lambda>c. c \<noteq> CHR ''_'') (a @ CHR ''_'' # b) = a"
       "takeWhile (\<lambda>c. c \<noteq> CHR ''_'') (a' @ CHR ''_'' # b') = a'"
    using assms(1,2) by (auto simp: takeWhile_tail)
  with assms(3) have "a = a'" by simp
  with assms(3) show ?thesis by simp
qed

lemma getCache_after_prepare:
  assumes "enable option" "prepareCacheDir option s = (Inr (), (pa, wa))"
    "nodes wa (getCachePath rt (getKey rt ident source) option) = Some (File c)"
  shows "getCache rt ident source option s
         = checkHashComment (getKey rt ident source) c
             (pa, log_op (ReadFile (getCachePath rt (getKey rt ident source) option))
                    (log_op (Exists (getCachePath rt (getKey rt ident source) option)) wa))"
  using assms
  by (simp add: getCache_def Let_def bun_exists_def existsSync_def readFile_def)

lemma getCache_prepare_fails:
  assumes "enable option" "prepareCacheDir option s = (Inl e, s1)"
  shows "getCache rt ident source option s = (Inl e, s1)"
  using assms by (simp add: getCache_def)

lemma checkHashComment_resolved:
  assumes "typiaVersion p = v \<and> v \<noteq> None \<or> typiaVersion p = None \<and> typia_pkg w = PkgJSON v"
  shows "\<exists>s'. checkHashComment key c (p, w)
           = ((if endsWith c (hashComment v key) then Inr (Some c) else Inr None), s')"
  using assms
  by (auto simp: checkHashComment_def getHashComment_def readPackageJSON_def log_op_def Let_def)

lemma setCache_fresh_base:
  assumes "enable option" "cacheDir p = None"
    "setCache rt ident source (Some d) option (p, w) = (Inr u, (p1, w1))"
  shows "nodes w1 (base option) = Some Dir \<and> base option \<notin> readonly w1"
proof -
  let ?key = "getKey rt ident source"
  let ?path = "getCachePath rt ?key option"
  obtain r0 pa wa where prep: "prepareCacheDir option (p, w) = (r0, (pa, wa))"
    by (metis prod.exhaust)
  with assms have r0: "r0 = Inr ()" by (cases r0) (auto simp: setCache_def)
  from prep[unfolded r0] assms(2) have b: "nodes wa (base option) = Some Dir" "base option \<notin> readonly wa"
    by (auto simp: prepareCacheDir_def mkdir_def isWritable_def log_op_def Let_def
             split: if_splits option.splits node.splits prod.splits sum.splits)
  obtain r2 p2 w2 where g: "getHashComment ?key (pa, wa) = (r2, (p2, w2))"
    by (metis prod.exhaust)
  with assms prep r0 obtain hc where r2: "r2 = Inr hc"
    by (cases r2) (auto simp: setCache_def Let_def)
  note H = getHashComment_Inr[OF g[unfolded r2]]
  from assms(1,3) prep r0 g r2 have
    wr: "(if isBun rt then bun_write rt ?path (d @ hc) w2 else writeFile rt ?path (d @ hc) w2)
           = (Inr u, w1)"
    by (auto simp: setCache_def Let_def split: if_splits prod.splits)
  from b H(3,4) have b2: "nodes w2 (base option) = Some Dir" "base option \<notin> readonly w2" by simp_all
  from wr b2 show ?thesis
    by (auto simp: bun_write_def writeFile_def log_op_def Let_def
             split: if_splits option.splits node.splits)
qed

lemma prepareCacheDir_existing:
  assumes "cacheDir p = None" "nodes w (base option) = Some Dir" "base option \<notin> readonly w"
  shows "\<exists>pa wa. prepareCacheDir option (p, w) = (Inr (), (pa, wa))"
  using assms
  by (simp add: prepareCacheDir_def mkdir_def isWritable_def log_op_def Let_def)

subsection \<open>Disabled caching\<close>

text \<open>
  Claim C8. With \<open>enable = false\<close>, \<open>getCache\<close> returns \<open>null\<close> and \<open>setCache\<close> returns,
  both at once: the process variables and the world, its trace of file system calls
  included, are what they were.
\<close>

theorem disabled_short_circuit:
  "\<not> enable option \<Longrightarrow>
     getCache rt ident source option s = (Inr None, s)
     \<and> setCache rt ident source data option s = (Inr (), s)"
  by (simp add: getCache_def setCache_def)


theorem disabled_short_circuit_witness:
  "\<not> enable (tmp_cache\<lparr>enable := False\<rparr>)
   \<and> getCache node_rt ''/src/app/main.ts'' ''a'' (tmp_cache\<lparr>enable := False\<rparr>) (fresh_proc, disk ''6.0.0'')
       = (Inr None, (fresh_proc, disk ''6.0.0''))
   \<and> setCache node_rt ''/src/app/main.ts'' ''a'' (Some ''x'') (tmp_cache\<lparr>enable := False\<rparr>) (fresh_proc, disk ''6.0.0'')
       = (Inr (), (fresh_proc, disk ''6.0.0''))"
  using disabled_short_circuit [of "tmp_cache\<lparr>enable := False\<rparr>" node_rt "''/src/app/main.ts''" "''a''"
      "(fresh_proc, disk ''6.0.0'')" "Some ''x''"]
  by (simp add: tmp_cache_def)

subsection \<open>The validity check fails closed\<close>

text \<open>
  Claim C5. Whatever is stored at the cache path, a text that \<open>getCache\<close> returns is the
  text of the file at that path and ends with the marker of the key and of the version
  the process holds after the call; anything else is \<open>null\<close> or an error.
\<close>

theorem getCache_fail_closed:
  assumes "getCache rt ident source option (p, w) = (Inr (Some d), (p', w'))"
  shows "endsWith d (hashComment (typiaVersion p') (getKey rt ident source))
         \<and> nodes w (getCachePath rt (getKey rt ident source) option) = Some (File d)"
proof -
  let ?key = "getKey rt ident source"
  let ?path = "getCachePath rt ?key option"
  from assms have en: "enable option" by (auto simp: getCache_def split: if_splits)
  obtain r1 p1 w1 where prep: "prepareCacheDir option (p, w) = (r1, (p1, w1))"
    by (metis prod.exhaust)
  with assms en have r1: "r1 = Inr ()" by (cases r1) (auto simp: getCache_def)
  let ?w2 = "log_op (Exists ?path) w1"
  from assms en prep r1 obtain data w3 where
    rd: "readFile ?path ?w2 = (Inr data, w3)" and
    chk: "checkHashComment ?key data (p1, w3) = (Inr (Some d), (p', w'))"
    by (auto simp: getCache_def Let_def bun_exists_def existsSync_def
             split: if_splits sum.splits prod.splits)
  from readFile_Inr[OF rd] have "nodes w1 ?path = Some (File data)" by simp
  with prep r1 have "nodes w ?path = Some (File data)"
    using prepareCacheDir_File_back by blast
  with checkHashComment_Some[OF chk] show ?thesis by auto
qed

theorem getCache_fail_closed_witness:
  "fst (getCache node_rt ''/src/app/main.ts'' ''a'' tmp_cache (fresh_proc, cached_disk))
     = Inr (Some ''x/* unplugin-typia-6.0.0-app_main.ts_0cc175b9c0f1b6a831c399e269772661 */'')
   \<and> endsWith ''x/* unplugin-typia-6.0.0-app_main.ts_0cc175b9c0f1b6a831c399e269772661 */''
        (hashComment (Some ''6.0.0'') ''app_main.ts_0cc175b9c0f1b6a831c399e269772661'')
   \<and> nodes cached_disk ''/tmp/c/app_main.ts_0cc175b9c0f1b6a831c399e269772661''
       = Some (File ''x/* unplugin-typia-6.0.0-app_main.ts_0cc175b9c0f1b6a831c399e269772661 */'')"
proof -
  let ?get = "getCache node_rt ''/src/app/main.ts'' ''a'' tmp_cache (fresh_proc, cached_disk)"
  let ?text = "''x/* unplugin-typia-6.0.0-app_main.ts_0cc175b9c0f1b6a831c399e269772661 */''"
  have f: "fst ?get = Inr (Some ?text)" by (simp add: cache_defs demo_defs cached_disk_def)
  then have g: "?get = (Inr (Some ?text), fst (snd ?get), snd (snd ?get))"
    by (metis prod.collapse)
  have v: "typiaVersion (fst (snd ?get)) = Some ''6.0.0''"
    by (simp add: cache_defs demo_defs cached_disk_def)
  have k: "getKey node_rt ''/src/app/main.ts'' ''a'' = ''app_main.ts_0cc175b9c0f1b6a831c399e269772661''"
    by (simp add: getKey_def hash_def demo_defs)
  have q: "getCachePath node_rt ''app_main.ts_0cc175b9c0f1b6a831c399e269772661'' tmp_cache
             = ''/tmp/c/app_main.ts_0cc175b9c0f1b6a831c399e269772661''"
    by (simp add: getCachePath_def demo_defs)
  from getCache_fail_closed [OF g] show ?thesis
    using f by (simp add: v k q)
qed

subsection \<open>Writing, then reading\<close>

text \<open>
  Claim C1, as stated: \<open>setCache\<close> of a text followed by \<open>getCache\<close> returns exactly that
  text. It does not: the file holds the text followed by the marker, and \<open>getCache\<close>
  returns the file as it is (line 55).
\<close>

theorem roundtrip_counterexample:
  "fst (setCache node_rt ''/src/app/main.ts'' ''a'' (Some ''x'') tmp_cache (fresh_proc, disk ''6.0.0''))
     = Inr ()
   \<and> fst (getCache node_rt ''/src/app/main.ts'' ''a'' tmp_cache
            (snd (setCache node_rt ''/src/app/main.ts'' ''a'' (Some ''x'') tmp_cache
                    (fresh_proc, disk ''6.0.0''))))
     = Inr (Some ''x/* unplugin-typia-6.0.0-app_main.ts_0cc175b9c0f1b6a831c399e269772661 */'')
   \<and> fst (getCache node_rt ''/src/app/main.ts'' ''a'' tmp_cache
            (snd (setCache node_rt ''/src/app/main.ts'' ''a'' (Some ''x'') tmp_cache
                    (fresh_proc, disk ''6.0.0''))))
     \<noteq> Inr (Some ''x'')"
  by (simp add: cache_defs demo_defs)

text \<open>
  Claim C1, amended. When \<open>setCache\<close> of a text returns normally, \<open>getCache\<close> in the state
  it leaves returns the text followed by the validity marker.
\<close>

theorem roundtrip_appends_marker:
  assumes "enable option"
    and "setCache rt ident source (Some d) option s = (Inr (), s1)"
  shows "\<exists>s2. getCache rt ident source option s1
           = (Inr (Some (d @ hashComment (typiaVersion (fst s1)) (getKey rt ident source))), s2)"
proof -
  let ?key = "getKey rt ident source"
  let ?path = "getCachePath rt ?key option"
  obtain p w where s: "s = (p, w)" by (cases s)
  obtain p2 w3 where s1: "s1 = (p2, w3)" by (cases s1)
  note S = setCache_Some_Inr[OF assms(1) assms(2)[unfolded s s1]]
  let ?w4 = "log_op (ReadFile ?path) (log_op (Exists ?path) w3)"
  have "typiaVersion p2 = None \<Longrightarrow> typia_pkg ?w4 = PkgJSON None"
    using S(3) by (simp add: log_op_def)
  from getHashComment_again[where key = ?key and p = p2 and w = ?w4, OF this] obtain w5 where
    "getHashComment ?key (p2, ?w4) = (Inr (hashComment (typiaVersion p2) ?key), (p2, w5))"
    by blast
  then have "checkHashComment ?key (d @ hashComment (typiaVersion p2) ?key) (p2, ?w4)
             = (Inr (Some (d @ hashComment (typiaVersion p2) ?key)), (p2, w5))"
    by (simp add: checkHashComment_def)
  with getCache_prepared_File[OF assms(1) S(1) S(2)] show ?thesis
    by (simp add: s1)
qed

theorem roundtrip_appends_marker_witness:
  "enable tmp_cache
   \<and> fst (setCache node_rt ''/src/app/main.ts'' ''a'' (Some ''x'') tmp_cache (fresh_proc, disk ''6.0.0''))
       = Inr ()
   \<and> fst (getCache node_rt ''/src/app/main.ts'' ''a'' tmp_cache
            (snd (setCache node_rt ''/src/app/main.ts'' ''a'' (Some ''x'') tmp_cache
                    (fresh_proc, disk ''6.0.0''))))
       = Inr (Some (''x'' @ hashComment (Some ''6.0.0'') ''app_main.ts_0cc175b9c0f1b6a831c399e269772661''))"
proof -
  let ?set = "setCache node_rt ''/src/app/main.ts'' ''a'' (Some ''x'') tmp_cache (fresh_proc, disk ''6.0.0'')"
  have en: "enable tmp_cache" by (simp add: tmp_cache_def)
  have f: "fst ?set = Inr ()" by (simp add: cache_defs demo_defs)
  then have st: "?set = (Inr (), snd ?set)" by (metis prod.collapse)
  have v: "typiaVersion (fst (snd ?set)) = Some ''6.0.0''" by (simp add: cache_defs demo_defs)
  have k: "getKey node_rt ''/src/app/main.ts'' ''a'' = ''app_main.ts_0cc175b9c0f1b6a831c399e269772661''"
    by (simp add: getKey_def hash_def demo_defs)
  from roundtrip_appends_marker [OF en st] show ?thesis
    using en f by (auto simp: v k)
qed

subsection \<open>A changed compiler version\<close>

text \<open>
  Claim C2. Let \<open>setCache\<close> have written an entry and returned normally, and let the
  entry be on disk as it was left. A process that records another compiler version,
  because it memoized it earlier or because it resolves it now from the installed
  package, never gets the entry from \<open>getCache\<close> for the same identity and source; it gets
  \<open>null\<close> whenever its directory is prepared already or the writing call prepared the
  very directory it now prepares again. Versions are texts without \<open>/\<close>, as every
  semantic version is.
\<close>

theorem version_change_invalidates:
  assumes "enable option"
    and "setCache rt ident source (Some d) option (p, w) = (Inr (), (p1, w1))"
    and "nodes w2 = nodes w1" and "readonly w2 = readonly w1"
    and "typiaVersion p2 = v2 \<and> v2 \<noteq> None \<or> typiaVersion p2 = None \<and> typia_pkg w2 = PkgJSON v2"
    and "versionText v2 \<noteq> versionText (typiaVersion p1)"
    and "CHR ''/'' \<notin> set (versionText v2)"
    and "CHR ''/'' \<notin> set (versionText (typiaVersion p1))"
  shows "nodes w2 (getCachePath rt (getKey rt ident source) option)
           = Some (File (d @ hashComment (typiaVersion p1) (getKey rt ident source)))
     \<and> (\<forall>x. fst (getCache rt ident source option (p2, w2)) \<noteq> Inr (Some x))
     \<and> (cacheDir p2 \<noteq> None \<or> cacheDir p = None \<longrightarrow>
          (\<exists>s2. getCache rt ident source option (p2, w2) = (Inr None, s2)))"
proof -
  let ?key = "getKey rt ident source"
  let ?path = "getCachePath rt ?key option"
  let ?text = "d @ hashComment (typiaVersion p1) ?key"
  note S = setCache_Some_Inr[OF assms(1,2)]
  have onDisk: "nodes w2 ?path = Some (File ?text)" using S(2) assms(3) by simp
  have miss: "\<not> endsWith ?text (hashComment v2 ?key)"
  proof
    assume "endsWith ?text (hashComment v2 ?key)"
    then obtain z where "?text = z @ hashComment v2 ?key"
      by (auto simp: endsWith_iff)
    from marker_suffix_same_version[OF this assms(8,7)] assms(6) show False by simp
  qed
  have G: "\<exists>s2. getCache rt ident source option (p2, w2) = (Inr None, s2)"
    if prep: "prepareCacheDir option (p2, w2) = (Inr (), (pa, wa))" for pa wa
  proof -
    note P = prepareCacheDir_Inr[OF prep]
    let ?w3 = "log_op (ReadFile ?path) (log_op (Exists ?path) wa)"
    have "typiaVersion pa = v2 \<and> v2 \<noteq> None \<or> typiaVersion pa = None \<and> typia_pkg ?w3 = PkgJSON v2"
      using assms(5) P(2,3) by (auto simp: log_op_def)
    from checkHashComment_resolved[OF this, of ?key ?text] miss obtain s' where
      "checkHashComment ?key ?text (pa, ?w3) = (Inr None, s')" by auto
    with getCache_after_prepare[OF assms(1) prep P(5)[OF onDisk]] show ?thesis by simp
  qed
  have never: "fst (getCache rt ident source option (p2, w2)) \<noteq> Inr (Some x)" for x
  proof -
    obtain r0 pa wa where prep: "prepareCacheDir option (p2, w2) = (r0, (pa, wa))"
      by (metis prod.exhaust)
    show ?thesis
    proof (cases r0)
      case (Inl e)
      with getCache_prepare_fails[OF assms(1) prep[unfolded Inl]] show ?thesis by simp
    next
      case (Inr u)
      with G[of pa wa] prep show ?thesis by auto
    qed
  qed
  have null: "\<exists>s2. getCache rt ident source option (p2, w2) = (Inr None, s2)"
    if "cacheDir p2 \<noteq> None \<or> cacheDir p = None"
  proof (cases "cacheDir p2 = None")
    case False
    then show ?thesis using G[OF prepareCacheDir_prepared] by blast
  next
    case True
    with that have "cacheDir p = None" by simp
    from setCache_fresh_base[OF assms(1) this assms(2)] assms(3,4)
    have "nodes w2 (base option) = Some Dir" "base option \<notin> readonly w2" by simp_all
    from prepareCacheDir_existing[OF True this] G show ?thesis by blast
  qed
  from onDisk never null show ?thesis by blast
qed

theorem version_change_invalidates_witness:
  "enable tmp_cache
   \<and> fst (setCache node_rt ''/src/app/main.ts'' ''a'' (Some ''x'') tmp_cache (fresh_proc, disk ''6.0.0''))
       = Inr ()
   \<and> typiaVersion (fst (snd (setCache node_rt ''/src/app/main.ts'' ''a'' (Some ''x'') tmp_cache
                                 (fresh_proc, disk ''6.0.0'')))) = Some ''6.0.0''
   \<and> cacheDir fresh_proc = None \<and> typiaVersion fresh_proc = None
   \<and> versionText (Some ''6.1.0'') \<noteq> versionText (Some ''6.0.0'')
   \<and> CHR ''/'' \<notin> set (versionText (Some ''6.1.0''))
   \<and> CHR ''/'' \<notin> set (versionText (Some ''6.0.0''))
   \<and> nodes ((snd (snd (setCache node_rt ''/src/app/main.ts'' ''a'' (Some ''x'') tmp_cache
                            (fresh_proc, disk ''6.0.0''))))\<lparr>typia_pkg := PkgJSON (Some ''6.1.0'')\<rparr>)
        ''/tmp/c/app_main.ts_0cc175b9c0f1b6a831c399e269772661''
       = Some (File ''x/* unplugin-typia-6.0.0-app_main.ts_0cc175b9c0f1b6a831c399e269772661 */'')
   \<and> fst (getCache node_rt ''/src/app/main.ts'' ''a'' tmp_cache
            (fresh_proc,
             (snd (snd (setCache node_rt ''/src/app/main.ts'' ''a'' (Some ''x'') tmp_cache
                          (fresh_proc, disk ''6.0.0''))))\<lparr>typia_pkg := PkgJSON (Some ''6.1.0'')\<rparr>))
       = Inr None"
proof -
  let ?set = "setCache node_rt ''/src/app/main.ts'' ''a'' (Some ''x'') tmp_cache (fresh_proc, disk ''6.0.0'')"
  let ?w2 = "(snd (snd ?set))\<lparr>typia_pkg := PkgJSON (Some ''6.1.0'')\<rparr>"
  have en: "enable tmp_cache" by (simp add: tmp_cache_def)
  have f: "fst ?set = Inr ()" by (simp add: cache_defs demo_defs)
  then have st: "?set = (Inr (), (fst (snd ?set), snd (snd ?set)))" by (metis prod.collapse)
  have v: "typiaVersion (fst (snd ?set)) = Some ''6.0.0''" by (simp add: cache_defs demo_defs)
  have fr: "cacheDir fresh_proc = None" "typiaVersion fresh_proc = None"
    by (simp_all add: fresh_proc_def)
  have k: "getKey node_rt ''/src/app/main.ts'' ''a'' = ''app_main.ts_0cc175b9c0f1b6a831c399e269772661''"
    by (simp add: getKey_def hash_def demo_defs)
  have q: "getCachePath node_rt ''app_main.ts_0cc175b9c0f1b6a831c399e269772661'' tmp_cache
             = ''/tmp/c/app_main.ts_0cc175b9c0f1b6a831c399e269772661''"
    by (simp add: getCachePath_def demo_defs)
  have h3: "nodes ?w2 = nodes (snd (snd ?set))" by simp
  have h4: "readonly ?w2 = readonly (snd (snd ?set))" by simp
  have h5: "typiaVersion fresh_proc = Some ''6.1.0'' \<and> Some ''6.1.0'' \<noteq> None
            \<or> typiaVersion fresh_proc = None \<and> typia_pkg ?w2 = PkgJSON (Some ''6.1.0'')"
    using fr(2) by simp
  have h6: "versionText (Some ''6.1.0'') \<noteq> versionText (typiaVersion (fst (snd ?set)))"
    by (simp add: v versionText_def)
  have h7: "CHR ''/'' \<notin> set (versionText (Some ''6.1.0''))" by (simp add: versionText_def)
  have h8: "CHR ''/'' \<notin> set (versionText (typiaVersion (fst (snd ?set))))"
    by (simp add: v versionText_def)
  note T = version_change_invalidates [OF en st h3 h4 h5 h6 h7 h8]
  from T have a: "nodes ?w2 ''/tmp/c/app_main.ts_0cc175b9c0f1b6a831c399e269772661''
       = Some (File ''x/* unplugin-typia-6.0.0-app_main.ts_0cc175b9c0f1b6a831c399e269772661 */'')"
    by (simp add: v k q hashComment_def versionText_def)
  from T fr(1) obtain s2 where
    "getCache node_rt ''/src/app/main.ts'' ''a'' tmp_cache (fresh_proc, ?w2) = (Inr None, s2)"
    by blast
  then have b: "fst (getCache node_rt ''/src/app/main.ts'' ''a'' tmp_cache (fresh_proc, ?w2)) = Inr None"
    by simp
  have h6': "versionText (Some ''6.1.0'') \<noteq> versionText (Some ''6.0.0'')"
    by (simp add: versionText_def)
  have h8': "CHR ''/'' \<notin> set (versionText (Some ''6.0.0''))" by (simp add: versionText_def)
  from en f v fr h6' h7 h8' a b show ?thesis by (intro conjI)
qed

subsection \<open>Storing \<open>null\<close>\<close>

text \<open>
  Claim C4, as stated: with caching enabled, \<open>setCache\<close> with \<open>null\<close> deletes the entry
  when it exists, and the next \<open>getCache\<close> returns \<open>null\<close>. The directory is prepared
  (line 77) and the marker computed (line 81) before \<open>null\<close> is looked at (line 83):
  when \<open>typia\<close> cannot be resolved, or the base is not writable, the call raises
  without attempting \<open>rm\<close>, and when the entry is write-protected \<open>rm\<close> raises; the
  entry stays where it is each time.
\<close>

theorem null_data_counterexample:
  "nodes cached_disk ''/tmp/c/app_main.ts_0cc175b9c0f1b6a831c399e269772661''
     = Some (File ''x/* unplugin-typia-6.0.0-app_main.ts_0cc175b9c0f1b6a831c399e269772661 */'')
   \<and> enable tmp_cache
   \<and> setCache node_rt ''/src/app/main.ts'' ''a'' None tmp_cache
        (fresh_proc, cached_disk\<lparr>typia_pkg := PkgMissing\<rparr>)
       = (Inl PkgNotFound,
          (\<lparr>cacheDir = Some ''/tmp/c'', typiaVersion = None\<rparr>,
           cached_disk\<lparr>typia_pkg := PkgMissing,
                        trace := [Mkdir ''/tmp/c'', Access ''/tmp/c'', ReadPkg]\<rparr>))
   \<and> fst (getCache node_rt ''/src/app/main.ts'' ''a'' tmp_cache
            (snd (setCache node_rt ''/src/app/main.ts'' ''a'' None tmp_cache
                    (fresh_proc, cached_disk\<lparr>typia_pkg := PkgMissing\<rparr>))))
       = Inl PkgNotFound
   \<and> setCache node_rt ''/src/app/main.ts'' ''a'' None tmp_cache
        (fresh_proc, cached_disk\<lparr>readonly := {''/tmp/c''}\<rparr>)
       = (Inl CacheDirNotWritable,
          (fresh_proc,
           cached_disk\<lparr>readonly := {''/tmp/c''}, trace := [Mkdir ''/tmp/c'', Access ''/tmp/c'']\<rparr>))
   \<and> setCache node_rt ''/src/app/main.ts'' ''a'' None tmp_cache
        (fresh_proc,
         cached_disk\<lparr>readonly := {''/tmp/c/app_main.ts_0cc175b9c0f1b6a831c399e269772661''}\<rparr>)
       = (Inl (EACCES ''/tmp/c/app_main.ts_0cc175b9c0f1b6a831c399e269772661''),
          (\<lparr>cacheDir = Some ''/tmp/c'', typiaVersion = Some ''6.0.0''\<rparr>,
           cached_disk\<lparr>readonly := {''/tmp/c/app_main.ts_0cc175b9c0f1b6a831c399e269772661''},
                        trace := [Mkdir ''/tmp/c'', Access ''/tmp/c'', ReadPkg,
                                  Rm ''/tmp/c/app_main.ts_0cc175b9c0f1b6a831c399e269772661'']\<rparr>))"
  by (simp add: cache_defs demo_defs cached_disk_def)

text \<open>
  Claim C4, amended. Let caching be enabled and let the call reach the deletion, that is,
  the directory is prepared and the marker computed without an error. If the entry is a
  file that may be removed, \<open>setCache\<close> with \<open>null\<close> removes it and the next \<open>getCache\<close>
  returns \<open>null\<close>; if nothing is stored at the path (a path other than the base itself),
  \<open>rm\<close> is attempted all the same and its \<open>ENOENT\<close> reaches the caller.
\<close>

theorem null_data_deletes:
  assumes "enable option"
    and "prepareCacheDir option (p, w) = (Inr (), s1)"
    and "getHashComment (getKey rt ident source) s1 = (Inr hc, (p2, w2))"
  shows "(\<forall>c. nodes w (getCachePath rt (getKey rt ident source) option) = Some (File c)
              \<and> getCachePath rt (getKey rt ident source) option \<notin> readonly w \<longrightarrow>
            (\<exists>w3. setCache rt ident source None option (p, w) = (Inr (), (p2, w3))
                  \<and> nodes w3 (getCachePath rt (getKey rt ident source) option) = None
                  \<and> (\<exists>s4. getCache rt ident source option (p2, w3) = (Inr None, s4))))
         \<and> (nodes w (getCachePath rt (getKey rt ident source) option) = None
              \<and> getCachePath rt (getKey rt ident source) option \<noteq> base option \<longrightarrow>
            setCache rt ident source None option (p, w)
              = (Inl (ENOENT (getCachePath rt (getKey rt ident source) option)),
                 (p2, log_op (Rm (getCachePath rt (getKey rt ident source) option)) w2)))"
proof -
  let ?key = "getKey rt ident source"
  let ?path = "getCachePath rt ?key option"
  obtain pa wa where s1: "s1 = (pa, wa)" by (cases s1)
  note P = prepareCacheDir_Inr[OF assms(2)[unfolded s1]]
  note H = getHashComment_Inr[OF assms(3)[unfolded s1]]
  have set: "setCache rt ident source None option (p, w)
             = (case rm ?path w2 of (r, w3) \<Rightarrow> (r, (p2, w3)))"
    using assms by (simp add: setCache_def Let_def s1)
  have ro: "readonly w2 = readonly w" using P(4) H(4) by simp
  have cd: "cacheDir p2 \<noteq> None" using P(1) H(2) by simp
  have one: "\<exists>w3. setCache rt ident source None option (p, w) = (Inr (), (p2, w3))
                  \<and> nodes w3 ?path = None
                  \<and> (\<exists>s4. getCache rt ident source option (p2, w3) = (Inr None, s4))"
    if f: "nodes w ?path = Some (File c)" and nr: "?path \<notin> readonly w" for c
  proof -
    let ?w3 = "(log_op (Rm ?path) w2)\<lparr>nodes := (nodes w2)(?path := None)\<rparr>"
    have "nodes w2 ?path = Some (File c)" using P(5)[OF f] H(3) by simp
    then have "setCache rt ident source None option (p, w) = (Inr (), (p2, ?w3))"
      using nr ro by (simp add: set rm_def Let_def)
    moreover have n: "nodes ?w3 ?path = None" by simp
    moreover from getCache_prepared_absent[OF assms(1) cd n]
    have "\<exists>s4. getCache rt ident source option (p2, ?w3) = (Inr None, s4)" by blast
    ultimately show ?thesis by blast
  qed
  have two: "setCache rt ident source None option (p, w)
               = (Inl (ENOENT ?path), (p2, log_op (Rm ?path) w2))"
    if a: "nodes w ?path = None" and nb: "?path \<noteq> base option"
  proof -
    have "nodes w2 ?path = None"
      using prepareCacheDir_other[OF assms(2)[unfolded s1] nb] H(3) a by simp
    then show ?thesis
      by (simp add: set rm_def Let_def)
  qed
  from one two show ?thesis by blast
qed

theorem null_data_deletes_witness:
  "enable tmp_cache
   \<and> fst (prepareCacheDir tmp_cache (fresh_proc, cached_disk)) = Inr ()
   \<and> fst (prepareCacheDir tmp_cache (fresh_proc, disk ''6.0.0'')) = Inr ()
   \<and> nodes cached_disk ''/tmp/c/app_main.ts_0cc175b9c0f1b6a831c399e269772661''
       = Some (File ''x/* unplugin-typia-6.0.0-app_main.ts_0cc175b9c0f1b6a831c399e269772661 */'')
   \<and> fst (setCache node_rt ''/src/app/main.ts'' ''a'' None tmp_cache (fresh_proc, cached_disk)) = Inr ()
   \<and> fst (getCache node_rt ''/src/app/main.ts'' ''a'' tmp_cache
            (snd (setCache node_rt ''/src/app/main.ts'' ''a'' None tmp_cache (fresh_proc, cached_disk))))
       = Inr None
   \<and> nodes (disk ''6.0.0'') ''/tmp/c/app_main.ts_0cc175b9c0f1b6a831c399e269772661'' = None
   \<and> fst (setCache node_rt ''/src/app/main.ts'' ''a'' None tmp_cache (fresh_proc, disk ''6.0.0''))
       = Inl (ENOENT ''/tmp/c/app_main.ts_0cc175b9c0f1b6a831c399e269772661'')"
proof -
  let ?key = "''app_main.ts_0cc175b9c0f1b6a831c399e269772661''"
  let ?path = "''/tmp/c/app_main.ts_0cc175b9c0f1b6a831c399e269772661''"
  let ?text = "''x/* unplugin-typia-6.0.0-app_main.ts_0cc175b9c0f1b6a831c399e269772661 */''"
  have en: "enable tmp_cache" by (simp add: tmp_cache_def)
  have k: "getKey node_rt ''/src/app/main.ts'' ''a'' = ?key"
    by (simp add: getKey_def hash_def demo_defs)
  have q: "getCachePath node_rt ?key tmp_cache = ?path"
    by (simp add: getCachePath_def demo_defs)
  let ?s1 = "snd (prepareCacheDir tmp_cache (fresh_proc, cached_disk))"
  have p1: "prepareCacheDir tmp_cache (fresh_proc, cached_disk) = (Inr (), ?s1)"
    by (simp add: cache_defs demo_defs cached_disk_def)
  have h1: "getHashComment (getKey node_rt ''/src/app/main.ts'' ''a'') ?s1
            = (Inr (hashComment (Some ''6.0.0'') ?key),
               (fst (snd (getHashComment ?key ?s1)), snd (snd (getHashComment ?key ?s1))))"
    by (simp add: cache_defs demo_defs cached_disk_def)
  have e1: "nodes cached_disk ?path = Some (File ?text)" "?path \<notin> readonly cached_disk"
    by (simp_all add: cached_disk_def disk_def)
  let ?t1 = "snd (prepareCacheDir tmp_cache (fresh_proc, disk ''6.0.0''))"
  have p2: "prepareCacheDir tmp_cache (fresh_proc, disk ''6.0.0'') = (Inr (), ?t1)"
    by (simp add: cache_defs demo_defs)
  have h2: "getHashComment (getKey node_rt ''/src/app/main.ts'' ''a'') ?t1
            = (Inr (hashComment (Some ''6.0.0'') ?key),
               (fst (snd (getHashComment ?key ?t1)), snd (snd (getHashComment ?key ?t1))))"
    by (simp add: cache_defs demo_defs)
  have e2: "nodes (disk ''6.0.0'') ?path = None" "?path \<noteq> base tmp_cache"
    by (simp_all add: disk_def tmp_cache_def)
  from null_data_deletes [OF en p1 h1] e1 k q obtain w3 where
    a: "setCache node_rt ''/src/app/main.ts'' ''a'' None tmp_cache (fresh_proc, cached_disk)
        = (Inr (), (fst (snd (getHashComment ?key ?s1)), w3))"
    and b: "\<exists>s4. getCache node_rt ''/src/app/main.ts'' ''a'' tmp_cache
                    (fst (snd (getHashComment ?key ?s1)), w3) = (Inr None, s4)"
    by auto
  from null_data_deletes [OF en p2 h2] e2 k q have
    c: "fst (setCache node_rt ''/src/app/main.ts'' ''a'' None tmp_cache (fresh_proc, disk ''6.0.0''))
        = Inl (ENOENT ?path)"
    by auto
  have pf: "fst (prepareCacheDir tmp_cache (fresh_proc, cached_disk)) = Inr ()"
    "fst (prepareCacheDir tmp_cache (fresh_proc, disk ''6.0.0'')) = Inr ()"
    using p1 p2 by (metis fst_conv)+
  from b obtain s4 where "getCache node_rt ''/src/app/main.ts'' ''a'' tmp_cache
      (snd (setCache node_rt ''/src/app/main.ts'' ''a'' None tmp_cache (fresh_proc, cached_disk)))
      = (Inr None, s4)"
    by (auto simp: a)
  then have d: "fst (getCache node_rt ''/src/app/main.ts'' ''a'' tmp_cache
      (snd (setCache node_rt ''/src/app/main.ts'' ''a'' None tmp_cache (fresh_proc, cached_disk))))
      = Inr None"
    by simp
  have a': "fst (setCache node_rt ''/src/app/main.ts'' ''a'' None tmp_cache (fresh_proc, cached_disk)) = Inr ()"
    by (simp add: a)
  from a' d c en pf e1(1) e2(1) show ?thesis by blast
qed

subsection \<open>The guard of the directory preparation\<close>

text \<open>
  Claim C10. Let the first call of a process with caching enabled return normally under
  the options \<open>o1\<close>. Then \<open>cacheDir\<close> holds the base of \<open>o1\<close>, and in every later state
  of the process (where \<open>cacheDir\<close> is still that) a call under any enabled options
  \<open>o2\<close>, whatever their base, issues neither \<open>mkdir\<close> nor \<open>access\<close>: \<open>getCache\<close> goes
  straight to the existence test of the path under the base of \<open>o2\<close> and changes no
  file or directory; \<open>setCache\<close> ends with the write or the removal at that path and
  touches nothing but it (and, under Bun, the parent that \<open>createPath\<close> makes); the
  recorded base stays that of \<open>o1\<close>.
\<close>

theorem prepared_guard_ignores_base:
  assumes "cacheDir p0 = None" and "enable o1"
    and "getCache rt i0 src0 o1 (p0, w0) = (Inr r0, (p1, w1))
         \<or> setCache rt i0 src0 d0 o1 (p0, w0) = (Inr (), (p1, w1))"
    and "cacheDir p = cacheDir p1" and "enable o2"
  shows "cacheDir p1 = Some (base o1)
    \<and> (\<exists>r p' w' evs. getCache rt i src o2 (p, w) = (r, (p', w'))
          \<and> cacheDir p' = Some (base o1)
          \<and> trace w' = trace w @ Exists (getCachePath rt (getKey rt i src) o2) # evs
          \<and> (\<forall>e \<in> set evs. \<not> is_prep e)
          \<and> nodes w' = nodes w)
    \<and> (\<exists>r p' w' evs. setCache rt i src d o2 (p, w) = (r, (p', w'))
          \<and> cacheDir p' = Some (base o1)
          \<and> trace w' = trace w @ evs
          \<and> (\<forall>e \<in> set evs. \<not> is_prep e)
          \<and> (r \<noteq> Inl PkgNotFound \<longrightarrow>
               last evs = (case d of None \<Rightarrow> Rm (getCachePath rt (getKey rt i src) o2)
                           | Some t \<Rightarrow> WriteFile (getCachePath rt (getKey rt i src) o2)))
          \<and> (\<forall>x. x \<noteq> getCachePath rt (getKey rt i src) o2
                 \<and> (isBun rt \<longrightarrow> x \<noteq> dirname rt (getCachePath rt (getKey rt i src) o2))
                 \<longrightarrow> nodes w' x = nodes w x))"
proof -
  from assms(3) have c1: "cacheDir p1 = Some (base o1)"
    using getCache_first_cacheDir[OF assms(2,1)] setCache_first_cacheDir[OF assms(2,1)] by blast
  then have c: "cacheDir p \<noteq> None" and ceq: "cacheDir p = Some (base o1)"
    using assms(4) by simp_all
  have G: "\<exists>r p' w' evs. getCache rt i src o2 (p, w) = (r, (p', w'))
          \<and> cacheDir p' = Some (base o1)
          \<and> trace w' = trace w @ Exists (getCachePath rt (getKey rt i src) o2) # evs
          \<and> (\<forall>e \<in> set evs. \<not> is_prep e)
          \<and> nodes w' = nodes w"
    using getCache_prepared_frame[OF assms(5) c, of rt i src w] unfolding ceq .
  obtain rs ss where s0: "setCache rt i src d o2 (p, w) = (rs, ss)"
    by (cases "setCache rt i src d o2 (p, w)")
  obtain ps ws where ss: "ss = (ps, ws)" by (cases ss)
  note sres = s0[unfolded ss]
  note SF = setCache_prepared_frame[OF assms(5) c sres]
  from SF(2) obtain evs where E: "trace ws = trace w @ evs" "\<forall>e \<in> set evs. \<not> is_prep e"
    "rs \<noteq> Inl PkgNotFound \<longrightarrow>
       last evs = (case d of None \<Rightarrow> Rm (getCachePath rt (getKey rt i src) o2)
                   | Some t \<Rightarrow> WriteFile (getCachePath rt (getKey rt i src) o2))"
    by blast
  have "setCache rt i src d o2 (p, w) = (rs, (ps, ws))
          \<and> cacheDir ps = Some (base o1)
          \<and> trace ws = trace w @ evs
          \<and> (\<forall>e \<in> set evs. \<not> is_prep e)
          \<and> (rs \<noteq> Inl PkgNotFound \<longrightarrow>
               last evs = (case d of None \<Rightarrow> Rm (getCachePath rt (getKey rt i src) o2)
                           | Some t \<Rightarrow> WriteFile (getCachePath rt (getKey rt i src) o2)))
          \<and> (\<forall>x. x \<noteq> getCachePath rt (getKey rt i src) o2
                 \<and> (isBun rt \<longrightarrow> x \<noteq> dirname rt (getCachePath rt (getKey rt i src) o2))
                 \<longrightarrow> nodes ws x = nodes w x)"
    using sres SF(1) SF(3) E ceq by simp
  then have S: "\<exists>r p' w' evs. setCache rt i src d o2 (p, w) = (r, (p', w'))
          \<and> cacheDir p' = Some (base o1)
          \<and> trace w' = trace w @ evs
          \<and> (\<forall>e \<in> set evs. \<not> is_prep e)
          \<and> (r \<noteq> Inl PkgNotFound \<longrightarrow>
               last evs = (case d of None \<Rightarrow> Rm (getCachePath rt (getKey rt i src) o2)
                           | Some t \<Rightarrow> WriteFile (getCachePath rt (getKey rt i src) o2)))
          \<and> (\<forall>x. x \<noteq> getCachePath rt (getKey rt i src) o2
                 \<and> (isBun rt \<longrightarrow> x \<noteq> dirname rt (getCachePath rt (getKey rt i src) o2))
                 \<longrightarrow> nodes w' x = nodes w x)"
    by (intro exI)
  from c1 G S show ?thesis by (intro conjI)
qed

theorem prepared_guard_ignores_base_witness:
  "cacheDir fresh_proc = None \<and> enable tmp_cache \<and> enable other_cache
   \<and> fst (setCache node_rt ''/src/app/main.ts'' ''a'' (Some ''x'') tmp_cache (fresh_proc, disk ''6.0.0''))
       = Inr ()
   \<and> cacheDir (fst (snd (setCache node_rt ''/src/app/main.ts'' ''a'' (Some ''x'') tmp_cache
                            (fresh_proc, disk ''6.0.0''))))
       = Some ''/tmp/c''
   \<and> getCache node_rt ''/src/app/main.ts'' ''a'' other_cache
        (snd (setCache node_rt ''/src/app/main.ts'' ''a'' (Some ''x'') tmp_cache (fresh_proc, disk ''6.0.0'')))
       = (Inr None,
          (\<lparr>cacheDir = Some ''/tmp/c'', typiaVersion = Some ''6.0.0''\<rparr>,
           \<lparr>nodes = [''/tmp/c'' \<mapsto> Dir,
                     ''/tmp/c/app_main.ts_0cc175b9c0f1b6a831c399e269772661''
                       \<mapsto> File ''x/* unplugin-typia-6.0.0-app_main.ts_0cc175b9c0f1b6a831c399e269772661 */''],
            readonly = {}, typia_pkg = PkgJSON (Some ''6.0.0''),
            trace = [Mkdir ''/tmp/c'', Access ''/tmp/c'', ReadPkg,
                     WriteFile ''/tmp/c/app_main.ts_0cc175b9c0f1b6a831c399e269772661'',
                     Exists ''/other/app_main.ts_0cc175b9c0f1b6a831c399e269772661'']\<rparr>))
   \<and> fst (setCache node_rt ''/src/app/main.ts'' ''a'' (Some ''x'') other_cache
        (snd (setCache node_rt ''/src/app/main.ts'' ''a'' (Some ''x'') tmp_cache (fresh_proc, disk ''6.0.0''))))
       = Inl (ENOENT ''/other/app_main.ts_0cc175b9c0f1b6a831c399e269772661'')"
proof -
  let ?first = "setCache node_rt ''/src/app/main.ts'' ''a'' (Some ''x'') tmp_cache (fresh_proc, disk ''6.0.0'')"
  have h1: "cacheDir fresh_proc = None" by (simp add: fresh_proc_def)
  have h2: "enable tmp_cache" by (simp add: tmp_cache_def)
  have h5: "enable other_cache" by (simp add: other_cache_def)
  have f: "fst ?first = Inr ()" by (simp add: cache_defs demo_defs)
  then have st: "?first = (Inr (), (fst (snd ?first), snd (snd ?first)))" by (metis prod.collapse)
  then have h3: "getCache node_rt ''/src/app/main.ts'' ''a'' tmp_cache (fresh_proc, disk ''6.0.0'')
                   = (Inr None, (fst (snd ?first), snd (snd ?first)))
                 \<or> ?first = (Inr (), (fst (snd ?first), snd (snd ?first)))"
    by (rule disjI2)
  have h4: "cacheDir (fst (snd ?first)) = cacheDir (fst (snd ?first))" by (rule refl)
  from prepared_guard_ignores_base [OF h1 h2 h3 h4 h5]
  have c: "cacheDir (fst (snd ?first)) = Some (base tmp_cache)" by blast
  have g: "getCache node_rt ''/src/app/main.ts'' ''a'' other_cache (snd ?first)
       = (Inr None,
          (\<lparr>cacheDir = Some ''/tmp/c'', typiaVersion = Some ''6.0.0''\<rparr>,
           \<lparr>nodes = [''/tmp/c'' \<mapsto> Dir,
                     ''/tmp/c/app_main.ts_0cc175b9c0f1b6a831c399e269772661''
                       \<mapsto> File ''x/* unplugin-typia-6.0.0-app_main.ts_0cc175b9c0f1b6a831c399e269772661 */''],
            readonly = {}, typia_pkg = PkgJSON (Some ''6.0.0''),
            trace = [Mkdir ''/tmp/c'', Access ''/tmp/c'', ReadPkg,
                     WriteFile ''/tmp/c/app_main.ts_0cc175b9c0f1b6a831c399e269772661'',
                     Exists ''/other/app_main.ts_0cc175b9c0f1b6a831c399e269772661'']\<rparr>))"
    by (simp add: cache_defs demo_defs other_cache_def)
  have s: "fst (setCache node_rt ''/src/app/main.ts'' ''a'' (Some ''x'') other_cache (snd ?first))
       = Inl (ENOENT ''/other/app_main.ts_0cc175b9c0f1b6a831c399e269772661'')"
    by (simp add: cache_defs demo_defs other_cache_def)
  from c have c': "cacheDir (fst (snd ?first)) = Some ''/tmp/c''" by (simp add: tmp_cache_def)
  from h1 h2 h5 f c' g s show ?thesis by (intro conjI)
qed

subsection \<open>The cache key\<close>

text \<open>
  Claim C7, as stated: changing the pair of basenames of an identity changes the key
  (up to a collision of the content hash). The two basenames are joined by an
  underscore that they may contain themselves: \<open>a_b/c.ts\<close> and \<open>a/b_c.ts\<close> differ in
  the pair and, for one and the same source, share the key, whatever the hash is.
\<close>

theorem getKey_underscore_counterexample:
  "(basename node_rt (dirname node_rt ''/src/a_b/c.ts''), basename node_rt ''/src/a_b/c.ts'')
     = (''a_b'', ''c.ts'')
   \<and> (basename node_rt (dirname node_rt ''/src/a/b_c.ts''), basename node_rt ''/src/a/b_c.ts'')
     = (''a'', ''b_c.ts'')
   \<and> (basename node_rt (dirname node_rt ''/src/a_b/c.ts''), basename node_rt ''/src/a_b/c.ts'')
     \<noteq> (basename node_rt (dirname node_rt ''/src/a/b_c.ts''), basename node_rt ''/src/a/b_c.ts'')
   \<and> getKey node_rt ''/src/a_b/c.ts'' ''a'' = ''a_b_c.ts_0cc175b9c0f1b6a831c399e269772661''
   \<and> getKey node_rt ''/src/a/b_c.ts'' ''a'' = ''a_b_c.ts_0cc175b9c0f1b6a831c399e269772661''
   \<and> getKey node_rt ''/src/a_b/c.ts'' ''a'' = getKey node_rt ''/src/a/b_c.ts'' ''a''"
  by (simp add: getKey_def hash_def demo_defs)

text \<open>
  Claim C7, amended. The key is the parent directory's basename, the file's basename and
  the hash of the source, joined by underscores, and a function of identity and source
  alone. For one identity, two sources have the same key exactly when they have the same
  hash; for one source, two identities have the same key exactly when their joined
  basenames are the same text, which a changed pair of basenames excludes whenever the
  basenames of the parent directories contain no underscore.
\<close>

theorem getKey_sensitivity:
  "getKey rt i s = basename rt (dirname rt i) @ ''_'' @ basename rt i @ ''_'' @ hash rt s
   \<and> (getKey rt i s = getKey rt i s' \<longleftrightarrow> hash rt s = hash rt s')
   \<and> (getKey rt i s = getKey rt i' s \<longleftrightarrow>
        basename rt (dirname rt i) @ ''_'' @ basename rt i
          = basename rt (dirname rt i') @ ''_'' @ basename rt i')
   \<and> (CHR ''_'' \<notin> set (basename rt (dirname rt i))
        \<and> CHR ''_'' \<notin> set (basename rt (dirname rt i'))
        \<and> (basename rt (dirname rt i), basename rt i) \<noteq> (basename rt (dirname rt i'), basename rt i')
        \<longrightarrow> getKey rt i s \<noteq> getKey rt i' s)"
proof -
  have 1: "getKey rt i s = basename rt (dirname rt i) @ ''_'' @ basename rt i @ ''_'' @ hash rt s"
    by (simp add: getKey_def)
  have 2: "getKey rt i s = getKey rt i s' \<longleftrightarrow> hash rt s = hash rt s'"
    by (simp add: getKey_def)
  have 3: "getKey rt i s = getKey rt i' s \<longleftrightarrow>
        basename rt (dirname rt i) @ ''_'' @ basename rt i
          = basename rt (dirname rt i') @ ''_'' @ basename rt i'"
  proof -
    have "getKey rt i s = (basename rt (dirname rt i) @ ''_'' @ basename rt i) @ (''_'' @ hash rt s)"
         "getKey rt i' s = (basename rt (dirname rt i') @ ''_'' @ basename rt i') @ (''_'' @ hash rt s)"
      by (simp_all add: getKey_def)
    then show ?thesis by (simp only: append_same_eq)
  qed
  have 4: "getKey rt i s \<noteq> getKey rt i' s"
    if "CHR ''_'' \<notin> set (basename rt (dirname rt i))"
       "CHR ''_'' \<notin> set (basename rt (dirname rt i'))"
       "(basename rt (dirname rt i), basename rt i) \<noteq> (basename rt (dirname rt i'), basename rt i')"
    using that underscore_split[OF that(1,2)] unfolding 3 by blast
  from 1 2 3 4 show ?thesis by blast
qed

theorem getKey_sensitivity_witness:
  "CHR ''_'' \<notin> set (basename node_rt (dirname node_rt ''/src/app/main.ts''))
   \<and> CHR ''_'' \<notin> set (basename node_rt (dirname node_rt ''/src/lib/main.ts''))
   \<and> (basename node_rt (dirname node_rt ''/src/app/main.ts''), basename node_rt ''/src/app/main.ts'')
       \<noteq> (basename node_rt (dirname node_rt ''/src/lib/main.ts''), basename node_rt ''/src/lib/main.ts'')
   \<and> getKey node_rt ''/src/app/main.ts'' ''a'' \<noteq> getKey node_rt ''/src/lib/main.ts'' ''a''
   \<and> hash node_rt ''a'' \<noteq> hash node_rt []
   \<and> getKey node_rt ''/src/app/main.ts'' ''a'' \<noteq> getKey node_rt ''/src/app/main.ts'' []"
proof -
  have a: "CHR ''_'' \<notin> set (basename node_rt (dirname node_rt ''/src/app/main.ts''))"
    "CHR ''_'' \<notin> set (basename node_rt (dirname node_rt ''/src/lib/main.ts''))"
    "(basename node_rt (dirname node_rt ''/src/app/main.ts''), basename node_rt ''/src/app/main.ts'')
       \<noteq> (basename node_rt (dirname node_rt ''/src/lib/main.ts''), basename node_rt ''/src/lib/main.ts'')"
    by (simp_all add: demo_defs)
  have h: "hash node_rt ''a'' \<noteq> hash node_rt []"
    by (simp add: hash_def demo_defs)
  from getKey_sensitivity [of node_rt "''/src/app/main.ts''" "''a''" "[]" "''/src/lib/main.ts''"] a h
  show ?thesis by blast
qed

section \<open>Properties of the Bun adapter\<close>

subsection \<open>What a matched file is served as\<close>

text \<open>
  Claim C3. For a matched file that can be read and a transform that returns, the
  callback serves \<open>code ?? source\<close>: the original source when the transform returned
  \<open>null\<close> or \<open>undefined\<close>, the original source as well when it returned a plain string,
  and the \<open>code\<close> of a returned object; in every case the replacement when
  \<open>taggedTransform\<close> produced one and the original source otherwise.
\<close>

theorem served_contents:
  assumes "readFile path w = (Inr source, w1)"
    and "transform unpluginRaw = Some t"
    and "t source path w1 = (Inr result, w2)"
  shows "loadTransformed unpluginRaw path w = (Inr (contents (classify result) source), w2)
    \<and> (nullish result \<longrightarrow> contents (classify result) source = JStr source)
    \<and> (\<forall>s. result = JStr s \<longrightarrow> contents (classify result) source = JStr source)
    \<and> (\<forall>fs c. result = JObj fs \<and> map_of fs ''code'' = Some (JStr c)
          \<longrightarrow> contents (classify result) source = JStr c)
    \<and> contents (classify result) source
        = (if nullish (classify result) then JStr source else classify result)"
  using assms
  by (auto simp: loadTransformed_def taggedTransform_def contents_def classify_def Let_def)

theorem served_contents_witness:
  "readFile ''/src/app/main.ts'' project = (Inr ''const x = 1'', log_op (ReadFile ''/src/app/main.ts'') project)
   \<and> nullish JNull
   \<and> loadTransformed return_null ''/src/app/main.ts'' project
       = (Inr (JStr ''const x = 1''), log_op (ReadFile ''/src/app/main.ts'') project)
   \<and> loadTransformed return_string ''/src/app/main.ts'' project
       = (Inr (JStr ''const x = 1''), log_op (ReadFile ''/src/app/main.ts'') project)
   \<and> map_of [(''code'', JStr ''const x = 2'')] ''code'' = Some (JStr ''const x = 2'')
   \<and> loadTransformed replace_code ''/src/app/main.ts'' project
       = (Inr (JStr ''const x = 2''), log_op (ReadFile ''/src/app/main.ts'') project)"
proof -
  let ?w1 = "log_op (ReadFile ''/src/app/main.ts'') project"
  have r: "readFile ''/src/app/main.ts'' project = (Inr ''const x = 1'', ?w1)"
    by (simp add: readFile_def project_def Let_def)
  have m: "map_of [(''code'', JStr ''const x = 2'')] ''code'' = Some (JStr ''const x = 2'')"
    by simp
  have t1: "transform return_null = Some (\<lambda>source ident w. (Inr JNull, w))"
    by (simp add: return_null_def)
  have t2: "transform return_string = Some (\<lambda>source ident w. (Inr (JStr ''const x = 2''), w))"
    by (simp add: return_string_def)
  have t3: "transform replace_code
              = Some (\<lambda>source ident w. (Inr (JObj [(''code'', JStr ''const x = 2'')]), w))"
    by (simp add: replace_code_def)
  from served_contents [OF r t1] have a:
    "loadTransformed return_null ''/src/app/main.ts'' project = (Inr (JStr ''const x = 1''), ?w1)"
    by simp
  from served_contents [OF r t2] have b:
    "loadTransformed return_string ''/src/app/main.ts'' project = (Inr (JStr ''const x = 1''), ?w1)"
    by simp
  from served_contents [OF r t3] m have c:
    "loadTransformed replace_code ''/src/app/main.ts'' project = (Inr (JStr ''const x = 2''), ?w1)"
    by simp
  from r a b c m show ?thesis by simp
qed

subsection \<open>The filter list\<close>

lemma regexps_all:
  "list_all instanceof_RegExp vs \<Longrightarrow> map JRegExp (regexps vs) = vs"
  by (induction vs rule: regexps.induct) simp_all

text \<open>
  Claim C6. A pattern becomes the list of just that pattern; a string becomes the list of
  the pattern the engine compiles from it (the engine's own \<open>SyntaxError\<close> when it
  compiles to none); a non-empty list of patterns is passed on as it is; every other
  value is refused with the error of line 129. An error of this step is the result of
  \<open>setup\<close> and leaves the world untouched: no \<open>buildStart\<close>, no registration, no file.
\<close>

theorem filters_exhaustive:
  "filters compiles (JRegExp r) = Inr [r]
   \<and> filters compiles (JStr s) = (if compiles s then Inr [RegExp s []] else Inl (RegExpSyntax s))
   \<and> (vs \<noteq> [] \<and> list_all instanceof_RegExp vs \<longrightarrow>
        (\<exists>rs. filters compiles (JArr vs) = Inr rs \<and> map JRegExp rs = vs))
   \<and> ((\<forall>r'. v \<noteq> JRegExp r') \<and> (\<forall>s'. v \<noteq> JStr s')
        \<and> (\<forall>vs'. v = JArr vs' \<longrightarrow> vs' = [] \<or> \<not> list_all instanceof_RegExp vs')
        \<longrightarrow> filters compiles v = Inl IncludeInvalid)
   \<and> (filters compiles (include' bunOptions) = Inl e \<longrightarrow>
        plugin_setup compiles bunOptions unpluginRaw w = (Inl e, w))"
proof -
  have 1: "filters compiles (JRegExp r) = Inr [r]" by (simp add: filters_def)
  have 2: "filters compiles (JStr s) = (if compiles s then Inr [RegExp s []] else Inl (RegExpSyntax s))"
    by (simp add: filters_def)
  have 3: "\<exists>rs. filters compiles (JArr vs) = Inr rs \<and> map JRegExp rs = vs"
    if "vs \<noteq> []" "list_all instanceof_RegExp vs"
    using that by (simp add: filters_def regexps_all)
  have 4: "filters compiles v = Inl IncludeInvalid"
    if "\<forall>r'. v \<noteq> JRegExp r'" "\<forall>s'. v \<noteq> JStr s'"
       "\<forall>vs'. v = JArr vs' \<longrightarrow> vs' = [] \<or> \<not> list_all instanceof_RegExp vs'"
    using that by (cases v) (auto simp: filters_def)
  have 5: "plugin_setup compiles bunOptions unpluginRaw w = (Inl e, w)"
    if "filters compiles (include' bunOptions) = Inl e"
    using that by (simp add: plugin_setup_def)
  from 1 2 3 4 5 show ?thesis by blast
qed

theorem filters_exhaustive_witness:
  "filters accepts (JRegExp ts_files) = Inr [ts_files]
   \<and> accepts ''main'' \<and> filters accepts (JStr ''main'') = Inr [RegExp ''main'' []]
   \<and> \<not> accepts ''('' \<and> filters accepts (JStr ''('') = Inl (RegExpSyntax ''('')
   \<and> list_all instanceof_RegExp [JRegExp ts_files, JRegExp (RegExp ''main'' [])]
   \<and> filters accepts (JArr [JRegExp ts_files, JRegExp (RegExp ''main'' [])])
       = Inr [ts_files, RegExp ''main'' []]
   \<and> filters accepts JUndefined = Inl IncludeInvalid
   \<and> filters accepts (JArr []) = Inl IncludeInvalid
   \<and> \<not> list_all instanceof_RegExp [JRegExp ts_files, JStr ''bad'']
   \<and> filters accepts (JArr [JRegExp ts_files, JStr ''bad'']) = Inl IncludeInvalid
   \<and> filters accepts (JNum 1) = Inl IncludeInvalid
   \<and> plugin_setup accepts \<lparr>forceImportTypiaMjs = None, include' = JArr []\<rparr> replace_code project
       = (Inl IncludeInvalid, project)"
proof -
  let ?two = "[JRegExp ts_files, JRegExp (RegExp ''main'' [])]"
  let ?mixed = "[JRegExp ts_files, JStr ''bad'']"
  let ?opts = "\<lparr>forceImportTypiaMjs = None, include' = JArr []\<rparr>"
  have acc: "accepts ''main''" "\<not> accepts ''(''" by (simp_all add: accepts_def)
  have all: "?two \<noteq> []" "list_all instanceof_RegExp ?two" by simp_all
  have mixed: "\<not> list_all instanceof_RegExp ?mixed" by simp
  note F = filters_exhaustive [of accepts ts_files _ ?two]
  have a: "filters accepts (JRegExp ts_files) = Inr [ts_files]"
    using F [of "''main''" JUndefined ?opts IncludeInvalid replace_code project] by blast
  have b: "filters accepts (JStr ''main'') = Inr [RegExp ''main'' []]"
    using F [of "''main''" JUndefined ?opts IncludeInvalid replace_code project] acc by simp
  have c: "filters accepts (JStr ''('') = Inl (RegExpSyntax ''('')"
    using F [of "''(''" JUndefined ?opts IncludeInvalid replace_code project] acc by simp
  have d: "filters accepts (JArr ?two) = Inr [ts_files, RegExp ''main'' []]"
    using F [of "''main''" JUndefined ?opts IncludeInvalid replace_code project] all by auto
  have e: "filters accepts JUndefined = Inl IncludeInvalid"
    using F [of "''main''" JUndefined ?opts IncludeInvalid replace_code project] by simp
  have f: "filters accepts (JArr []) = Inl IncludeInvalid"
    using F [of "''main''" "JArr []" ?opts IncludeInvalid replace_code project] by simp
  have g: "filters accepts (JArr ?mixed) = Inl IncludeInvalid"
    using F [of "''main''" "JArr ?mixed" ?opts IncludeInvalid replace_code project] mixed by simp
  have h: "filters accepts (JNum 1) = Inl IncludeInvalid"
    using F [of "''main''" "JNum 1" ?opts IncludeInvalid replace_code project] by simp
  have i: "plugin_setup accepts ?opts replace_code project = (Inl IncludeInvalid, project)"
    using F [of "''main''" "JArr []" ?opts IncludeInvalid replace_code project] f by simp
  from acc all(2) mixed a b c d e f g h i show ?thesis by (intro conjI)
qed

subsection \<open>The rewrite of the typia runtime\<close>

lemma typiaLibJs_test_endsWith:
  assumes "typiaLibJs_test path"
  shows "endsWith path ''.js''"
proof -
  from assms obtain i where "i + length typiaLibDir + 3 \<le> length path"
    "drop (length path - 3) path = ''.js''"
    by (auto simp: typiaLibJs_test_def list_ex_iff)
  then show ?thesis by (simp add: endsWith_def numeral_3_eq_3)
qed

text \<open>
  Claim C9. On a path that the fixed filter matches, the callback registered with it
  serves the text of the file whose name is the path with \<open>.js\<close> replaced by \<open>.mjs\<close>,
  and its only access to the file system is that read. The callback is the same
  whatever the raw plugin and its transform are, and it does not see the variables of
  the cache at all. \<open>setup\<close> registers it, once and under the fixed pattern, unless
  \<open>forceImportTypiaMjs\<close> is \<open>false\<close>, whatever the user's filters are.
\<close>

theorem typia_mjs_rewrite:
  "(typiaLibJs_test path \<and> nodes w (take (length path - 3) path @ ''.mjs'') = Some (File text) \<longrightarrow>
      loadTypiaMjs path w
        = (Inr (JStr text), log_op (ReadFile (take (length path - 3) path @ ''.mjs'')) w))
   \<and> run_loader TypiaMjsLoader unpluginRaw path w = loadTypiaMjs path w
   \<and> (plugin_setup compiles bunOptions unpluginRaw w = (Inr regs, w') \<longrightarrow>
        filter (\<lambda>reg. snd reg = TypiaMjsLoader) regs
          = (if forceImportTypiaMjs bunOptions = Some False then []
             else [(typiaLibJs, TypiaMjsLoader)]))"
proof -
  have 1: "loadTypiaMjs path w
        = (Inr (JStr text), log_op (ReadFile (take (length path - 3) path @ ''.mjs'')) w)"
    if "typiaLibJs_test path" "nodes w (take (length path - 3) path @ ''.mjs'') = Some (File text)"
    using that typiaLibJs_test_endsWith[OF that(1)]
    by (simp add: loadTypiaMjs_def replace_js_mjs_def readFile_def Let_def)
  have 2: "run_loader TypiaMjsLoader unpluginRaw path w = loadTypiaMjs path w" by simp
  have 3: "filter (\<lambda>reg. snd reg = TypiaMjsLoader) regs
          = (if forceImportTypiaMjs bunOptions = Some False then []
             else [(typiaLibJs, TypiaMjsLoader)])"
    if "plugin_setup compiles bunOptions unpluginRaw w = (Inr regs, w')"
  proof -
    from that obtain fs where
      "regs = map (\<lambda>f. (f, TransformLoader)) fs
              @ (if (case forceImportTypiaMjs bunOptions of None \<Rightarrow> True | Some b \<Rightarrow> b)
                 then [(typiaLibJs, TypiaMjsLoader)] else [])"
      by (auto simp: plugin_setup_def Let_def split: sum.splits prod.splits)
    then show ?thesis
      by (auto simp: filter_empty_conv split: option.splits)
  qed
  from 1 2 3 show ?thesis by blast
qed

theorem typia_mjs_rewrite_witness:
  "typiaLibJs_test ''/app/node_modules/typia/lib/index.js''
   \<and> nodes project ''/app/node_modules/typia/lib/index.mjs'' = Some (File ''export {}'')
   \<and> loadTypiaMjs ''/app/node_modules/typia/lib/index.js'' project
       = (Inr (JStr ''export {}''), log_op (ReadFile ''/app/node_modules/typia/lib/index.mjs'') project)
   \<and> plugin_setup accepts \<lparr>forceImportTypiaMjs = None, include' = JRegExp ts_files\<rparr> replace_code project
       = (Inr [(ts_files, TransformLoader), (typiaLibJs, TypiaMjsLoader)], project)
   \<and> filter (\<lambda>reg. snd reg = TypiaMjsLoader) [(ts_files, TransformLoader), (typiaLibJs, TypiaMjsLoader)]
       = [(typiaLibJs, TypiaMjsLoader)]"
proof -
  let ?js = "''/app/node_modules/typia/lib/index.js''"
  let ?opts = "\<lparr>forceImportTypiaMjs = None, include' = JRegExp ts_files\<rparr>"
  let ?regs = "[(ts_files, TransformLoader), (typiaLibJs, TypiaMjsLoader)]"
  have t: "typiaLibJs_test ?js" by code_simp
  have m: "take (length ?js - 3) ?js @ ''.mjs'' = ''/app/node_modules/typia/lib/index.mjs''"
    by simp
  have n: "nodes project ''/app/node_modules/typia/lib/index.mjs'' = Some (File ''export {}'')"
    by (simp add: project_def)
  have s: "plugin_setup accepts ?opts replace_code project = (Inr ?regs, project)"
    by (simp add: plugin_setup_def filters_def replace_code_def)
  note R = typia_mjs_rewrite [of ?js project "''export {}''" replace_code accepts ?opts ?regs project]
  from R t n have a: "loadTypiaMjs ?js project
       = (Inr (JStr ''export {}''), log_op (ReadFile ''/app/node_modules/typia/lib/index.mjs'') project)"
    unfolding m by blast
  from R s have b: "filter (\<lambda>reg. snd reg = TypiaMjsLoader) ?regs = [(typiaLibJs, TypiaMjsLoader)]"
    by simp
  from t n a s b show ?thesis by (intro conjI)
qed

end
